theory Spec2Isabelle
  imports Main "HOL-Library.AList" "HOL-Library.Sublist"
begin

section \<open>JavaScript strings\<close>

text \<open>
  A JavaScript string is a sequence of UTF-16 code units and \<open>length\<close> counts them.
  A \<^typ>\<open>string\<close> here holds one \<^typ>\<open>char\<close> per code unit, so the strings of the
  model are those over 256 code units; the program counts code units and compares them
  with ASCII ones only. The one code unit outside ASCII that the program itself writes
  is the ellipsis U+2026 of the truncation marker: one code unit in JavaScript, one
  \<^typ>\<open>char\<close> here (\<open>0x85\<close>).
\<close>

text \<open>\<open>key.startsWith(prefix)\<close>\<close>

definition startsWith :: "string \<Rightarrow> string \<Rightarrow> bool" where
  "startsWith str pre = (take (length pre) str = pre)"

text \<open>\<open>str.split(sep)\<close> for a separator of one code unit: never an empty array.\<close>

fun split_str :: "char \<Rightarrow> string \<Rightarrow> string list" where
  "split_str sep [] = [[]]"
| "split_str sep (c # cs) =
     (if c = sep then [] # split_str sep cs
      else (case split_str sep cs of
              [] \<Rightarrow> [[c]]
            | p # ps \<Rightarrow> (c # p) # ps))"

text \<open>\<open>parts.join(sep)\<close>\<close>

fun join_str :: "char \<Rightarrow> string list \<Rightarrow> string" where
  "join_str sep [] = []"
| "join_str sep [p] = p"
| "join_str sep (p # q # ps) = p @ sep # join_str sep (q # ps)"

section \<open>Tool namespacing (\<open>/api/chat\<close>)\<close>

text \<open>
  The name a tool is offered under: \<open>`${serverId}_${t.name}`\<close>.
\<close>

definition encode :: "string \<Rightarrow> string \<Rightarrow> string" where
  "encode serverId toolName = serverId @ ''_'' @ toolName"

text \<open>
  Resolving a requested name:
  \<open>const [serverId, ...fnParts] = fullName.split('_'); fnName = fnParts.join('_')\<close>.
  Destructuring an empty array would leave \<open>serverId\<close> undefined, which the template
  literal of the registry key prints as \<open>undefined\<close>.
\<close>

definition decode :: "string \<Rightarrow> string \<times> string" where
  "decode fullName =
     (case split_str CHR ''_'' fullName of
        [] \<Rightarrow> (''undefined'', [])
      | serverId # fnParts \<Rightarrow> (serverId, join_str CHR ''_'' fnParts))"

section \<open>Messages and the token estimate\<close>

text \<open>
  A JSON value that the program only passes on or serialises is held as the text
  \<open>JSON.stringify\<close> yields for it.
\<close>

type_synonym json = string

text \<open>
  \<open>msg.content\<close>: \<open>null\<close>, a string, any other JSON value (an array of content parts),
  or \<open>undefined\<close> when the field is absent.
\<close>

datatype content = CNull | CStr string | CParts json | CUndefined

datatype rawArgs = RawString string | RawValue json | RawFalsy

record fn =
  fn_name :: string
  fn_arguments :: rawArgs

record tool_call =
  call_id :: string
  call_function :: "fn option"

record msg =
  role :: string
  content :: content
  tool_calls :: "tool_call list option"
  tool_call_id :: "string option"

datatype error = TypeError string | SyntaxError string | Error string

definition MAX_CONTEXT_TOKENS :: nat where
  "MAX_CONTEXT_TOKENS = 120000"

definition BYTES_PER_TOKEN :: nat where
  "BYTES_PER_TOKEN = 3"

text \<open>\<open>Math.ceil(Math.min(str.length, 1_000_000) / BYTES_PER_TOKEN)\<close>\<close>

definition strTokens :: "string \<Rightarrow> nat" where
  "strTokens str =
     (let len = min (length str) 1000000
      in (len + (BYTES_PER_TOKEN - 1)) div BYTES_PER_TOKEN)"

definition MAX_SINGLE_MSG_TOKENS :: nat where
  "MAX_SINGLE_MSG_TOKENS = 8000"

definition truncated_marker :: string where
  "truncated_marker = CHR 0x85 # ''[truncated]''"

text \<open>
  \<open>clipMessage\<close> assigns to \<open>msg.content\<close>; here it returns the message with the
  new field.
\<close>

definition clipMessage :: "msg \<Rightarrow> msg" where
  "clipMessage m =
     (case content m of
        CStr s \<Rightarrow>
          if strTokens s > MAX_SINGLE_MSG_TOKENS
          then (let keep = MAX_SINGLE_MSG_TOKENS * BYTES_PER_TOKEN
                in m\<lparr>content := CStr (take keep s @ truncated_marker)\<rparr>)
          else m
      | _ \<Rightarrow> m)"

text \<open>
  \<open>JSON.stringify(undefined)\<close> is \<open>undefined\<close>, and \<open>strTokens\<close> then reads
  \<open>.length\<close> of it: a TypeError.
\<close>

definition msgTokens :: "msg \<Rightarrow> error + nat" where
  "msgTokens m =
     (case content m of
        CNull \<Rightarrow> Inr 4
      | CStr s \<Rightarrow> Inr (strTokens s)
      | CParts j \<Rightarrow> Inr (strTokens j)
      | CUndefined \<Rightarrow> Inl (TypeError ''Cannot read properties of undefined''))"

text \<open>
  The reducer \<open>(sum, m) => sum + msgTokens(m)\<close>; an exception of \<open>msgTokens\<close> ends
  the reduction.
\<close>

fun addTokens :: "error + nat \<Rightarrow> msg \<Rightarrow> error + nat" where
  "addTokens (Inl e) m = Inl e"
| "addTokens (Inr n) m = (case msgTokens m of Inl e \<Rightarrow> Inl e | Inr k \<Rightarrow> Inr (n + k))"

text \<open>\<open>messages.reduce((sum, m) => sum + msgTokens(m), 0)\<close>\<close>

definition totalTokens :: "msg list \<Rightarrow> error + nat" where
  "totalTokens messages = foldl addTokens (Inr 0) messages"

text \<open>\<open>pruned.findIndex(p)\<close>: \<open>None\<close> for \<open>-1\<close>.\<close>

fun findIndex :: "('a \<Rightarrow> bool) \<Rightarrow> 'a list \<Rightarrow> nat option" where
  "findIndex p [] = None"
| "findIndex p (x # xs) =
     (if p x then Some 0
      else (case findIndex p xs of None \<Rightarrow> None | Some i \<Rightarrow> Some (Suc i)))"

text \<open>\<open>pruned.splice(idx, 1)\<close>\<close>

definition splice1 :: "nat \<Rightarrow> 'a list \<Rightarrow> 'a list" where
  "splice1 idx xs = take idx xs @ drop (Suc idx) xs"

lemma findIndex_less: "findIndex p xs = Some i \<Longrightarrow> i < length xs"
  by (induction xs arbitrary: i) (auto split: if_splits option.splits)

lemma length_splice1: "idx < length xs \<Longrightarrow> length (splice1 idx xs) < length xs"
  by (simp add: splice1_def)

text \<open>The \<open>while\<close> loop of \<open>pruneConversation\<close>.\<close>

function dropOldest :: "msg list \<Rightarrow> error + msg list" where
  "dropOldest pruned =
     (case totalTokens pruned of
        Inl e \<Rightarrow> Inl e
      | Inr tokens \<Rightarrow>
          if tokens > MAX_CONTEXT_TOKENS \<and> length pruned > 1
          then (case findIndex (\<lambda>m. role m \<noteq> ''system'') pruned of
                  None \<Rightarrow> Inr pruned
                | Some idx \<Rightarrow> dropOldest (splice1 idx pruned))
          else Inr pruned)"
  by pat_completeness auto
termination
  by (relation "measure length") (auto dest: findIndex_less simp: length_splice1)

text \<open>
  The copy \<open>{ ...m, content: m.content }\<close> has the fields of \<open>m\<close>; at the level of
  values it is \<open>m\<close>.
\<close>

definition pruneConversation :: "msg list \<Rightarrow> error + msg list" where
  "pruneConversation messages = dropOldest (map clipMessage messages)"

section \<open>\<open>pruneConversation\<close> on a store\<close>

text \<open>
  Whether \<open>pruneConversation\<close> writes to its argument depends on which objects the
  assignments and the \<open>push\<close> and \<open>splice\<close> calls reach, so here the function is
  modelled a second time, over an explicit store: message objects and arrays of
  references to them live at addresses, and allocation takes the next free address.
  The fields of a message hold values; the nested arrays a shallow copy shares with its
  original (\<open>tool_calls\<close>, content parts) are never written by the function.
\<close>

record store =
  objects :: "nat \<Rightarrow> msg"
  arrays :: "nat \<Rightarrow> nat list"
  nextObject :: nat
  nextArray :: nat

text \<open>\<open>const pruned = []\<close>\<close>

definition newArray :: "store \<Rightarrow> store \<times> nat" where
  "newArray st =
     (st\<lparr>arrays := (arrays st)(nextArray st := []), nextArray := Suc (nextArray st)\<rparr>,
      nextArray st)"

text \<open>\<open>const clone = { ...m, content: m.content }\<close>: a new object with the fields of \<open>m\<close>.\<close>

definition cloneMessage :: "store \<Rightarrow> nat \<Rightarrow> store \<times> nat" where
  "cloneMessage st m =
     (st\<lparr>objects := (objects st)(nextObject st := objects st m),
         nextObject := Suc (nextObject st)\<rparr>,
      nextObject st)"

text \<open>\<open>clipMessage(clone)\<close>: the assignment to \<open>msg.content\<close> writes the object at \<open>a\<close>.\<close>

definition clipMessage_at :: "store \<Rightarrow> nat \<Rightarrow> store" where
  "clipMessage_at st a = st\<lparr>objects := (objects st)(a := clipMessage (objects st a))\<rparr>"

text \<open>\<open>pruned.push(clone)\<close>\<close>

definition push :: "store \<Rightarrow> nat \<Rightarrow> nat \<Rightarrow> store" where
  "push st arr r = st\<lparr>arrays := (arrays st)(arr := arrays st arr @ [r])\<rparr>"

text \<open>
  The \<open>for (const m of messages)\<close> loop, over the references the array \<open>messages\<close>
  holds when the loop starts; the body writes the new array and the new objects only.
\<close>

fun copyLoop :: "store \<Rightarrow> nat \<Rightarrow> nat list \<Rightarrow> store" where
  "copyLoop st pruned [] = st"
| "copyLoop st pruned (m # ms) =
     (case cloneMessage st m of
        (st1, clone) \<Rightarrow> copyLoop (push (clipMessage_at st1 clone) pruned clone) pruned ms)"

text \<open>The \<open>while\<close> loop: \<open>splice\<close> writes the array \<open>pruned\<close> in place.\<close>

function dropOldest_at :: "store \<Rightarrow> nat \<Rightarrow> store \<times> (error + nat)" where
  "dropOldest_at st pruned =
     (case totalTokens (map (objects st) (arrays st pruned)) of
        Inl e \<Rightarrow> (st, Inl e)
      | Inr tokens \<Rightarrow>
          if tokens > MAX_CONTEXT_TOKENS \<and> length (arrays st pruned) > 1
          then (case findIndex (\<lambda>a. role (objects st a) \<noteq> ''system'') (arrays st pruned) of
                  None \<Rightarrow> (st, Inr pruned)
                | Some idx \<Rightarrow>
                    dropOldest_at
                      (st\<lparr>arrays := (arrays st)(pruned := splice1 idx (arrays st pruned))\<rparr>)
                      pruned)
          else (st, Inr pruned))"
  by pat_completeness auto
termination
  by (relation "measure (\<lambda>(st, pruned). length (arrays st pruned))")
     (auto dest: findIndex_less simp: length_splice1)

declare dropOldest_at.simps [simp del]

text \<open>The call returns the store it leaves and the reference to \<open>pruned\<close>, or the exception.\<close>

definition pruneConversation_at :: "store \<Rightarrow> nat \<Rightarrow> store \<times> (error + nat)" where
  "pruneConversation_at st messages =
     (case newArray st of
        (st1, pruned) \<Rightarrow> dropOldest_at (copyLoop st1 pruned (arrays st1 messages)) pruned)"

text \<open>The messages an array refers to.\<close>

definition deref :: "store \<Rightarrow> nat \<Rightarrow> msg list" where
  "deref st arr = map (objects st) (arrays st arr)"

text \<open>Objects below \<open>no\<close> and arrays below \<open>na\<close> are the same in both stores.\<close>

definition unchanged_below :: "nat \<Rightarrow> nat \<Rightarrow> store \<Rightarrow> store \<Rightarrow> bool" where
  "unchanged_below no na st st' \<longleftrightarrow>
     (\<forall>a<no. objects st' a = objects st a) \<and> (\<forall>a<na. arrays st' a = arrays st a)"

section \<open>The connection registry (\<open>server.ts\<close>)\<close>

text \<open>
  A connected MCP client is an object of the SDK; the model holds its handle. The n-th
  provider process the server starts gets the handle n.
\<close>

type_synonym client = nat

text \<open>
  What \<open>client.listTools()\<close> reports of a tool. A JSON object whose keys the program
  counts (\<open>inputSchema\<close>) is a list of its entries.
\<close>

record tool =
  tool_name :: string
  tool_description :: "string option"
  tool_inputSchema :: "(string \<times> json) list option"

text \<open>An entry of \<open>CURATED_MCP_SERVERS\<close>, with the fields \<open>connectToMCPServer\<close> reads.\<close>

record MCPServerConfig =
  cfg_id :: string
  cfg_command :: "string option"
  cfg_args :: "string list option"

text \<open>An entry of the \<open>tools\<close> array of the chat completion request.\<close>

record ChatCompletionTool =
  function_name :: string
  function_description :: string
  function_parameters :: "(string \<times> json) list"

text \<open>\<open>completion.choices[0].message\<close>\<close>

record assistant =
  assistant_content :: "string option"
  assistant_tool_calls :: "tool_call list option"

text \<open>
  Everything outside the program: the curated list of \<open>mcp-servers-config.ts\<close> (the endpoints
  only look ids up in it, so it is a parameter), the provider processes, the model service and the JSON built-ins. An
  operation that can throw returns the message of the exception: \<open>Some\<close> of it where
  there is no other result, \<open>Inl\<close> of it otherwise.
  \<^item> \<open>transportConnect n id\<close>: \<open>client.connect(transport)\<close> for the n-th process, started
    for server \<open>id\<close>;
  \<^item> \<open>callTool c name args\<close>: \<open>result.content\<close> of the call as JSON text, \<open>None\<close> when the
    result has no \<open>content\<close>;
  \<^item> \<open>JSON_parse\<close>: \<open>None\<close> for a SyntaxError;
  \<^item> \<open>stringifyError msg\<close>: \<open>JSON.stringify({ error: msg })\<close>;
  \<^item> \<open>complete turn messages tools\<close>: the first choice of the completion requested in
    the given turn of a chat request.
\<close>

record world =
  CURATED_MCP_SERVERS :: "MCPServerConfig list"
  transportConnect :: "nat \<Rightarrow> string \<Rightarrow> string option"
  listTools :: "client \<Rightarrow> string + tool list"
  callTool :: "client \<Rightarrow> string \<Rightarrow> json \<Rightarrow> string + json option"
  closeClient :: "client \<Rightarrow> string option"
  JSON_parse :: "string \<Rightarrow> json option"
  stringifyError :: "string \<Rightarrow> string"
  complete :: "nat \<Rightarrow> msg list \<Rightarrow> ChatCompletionTool list \<Rightarrow> string + assistant"

text \<open>
  The state of the server: the map \<open>activeMCPConnections\<close> in insertion order, the server
  ids of the provider processes started so far, and the clients closed so far.
\<close>

record server =
  activeMCPConnections :: "(string \<times> client) list"
  spawned :: "string list"
  closed :: "client list"

text \<open>An HTTP response: \<open>res.json(body)\<close>, or \<open>res.status(code).json({ error })\<close>.\<close>

datatype 'a response = Json 'a | Status nat string

text \<open>The registry key \<open>`${sessionId}-${id}`\<close>.\<close>

definition connectionKey :: "string \<Rightarrow> string \<Rightarrow> string" where
  "connectionKey sessionId serverId = sessionId @ ''-'' @ serverId"

text \<open>\<open>e.message\<close>\<close>

fun message :: "error \<Rightarrow> string" where
  "message (TypeError m) = m"
| "message (SyntaxError m) = m"
| "message (Error m) = m"

fun extractServerId :: "string \<Rightarrow> string \<Rightarrow> error + string" where
  "extractServerId key sessionId =
     (let pre = sessionId @ ''-''
      in if \<not> startsWith key pre then Inl (Error (''Key '' @ key @ '' missing prefix''))
         else Inr (drop (length pre) key))"

text \<open>\<open>CURATED_MCP_SERVERS.find(s => s.id === serverId)\<close>\<close>

definition fetchMCPServerDetails :: "world \<Rightarrow> string \<Rightarrow> MCPServerConfig option" where
  "fetchMCPServerDetails w serverId =
     find (\<lambda>s. cfg_id s = serverId) (CURATED_MCP_SERVERS w)"

text \<open>
  \<open>connectToMCPServer\<close>: the transport starts the provider process, so the attempt is
  recorded in \<open>spawned\<close> whether the handshake succeeds or not. The hyphen of
  \<open>mis-configured\<close> is U+2011 in the source, one code unit.
\<close>

definition connectToMCPServer :: "world \<Rightarrow> server \<Rightarrow> string \<Rightarrow> server \<times> (error + client)" where
  "connectToMCPServer w st serverId =
     (case fetchMCPServerDetails w serverId of
        None \<Rightarrow> (st, Inl (Error (''MCP server '' @ serverId @ '' not found'')))
      | Some cfg \<Rightarrow>
          if cfg_command cfg = None \<or> cfg_command cfg = Some [] \<or> cfg_args cfg = None
          then (st, Inl (Error (''MCP server '' @ serverId @ '' mis'' @ [CHR 0xAD] @ ''configured'')))
          else (let client = length (spawned st);
                    st' = st\<lparr>spawned := spawned st @ [serverId]\<rparr>
                in case transportConnect w client serverId of
                     Some m \<Rightarrow> (st', Inl (Error m))
                   | None \<Rightarrow> (st', Inr client)))"

subsection \<open>\<open>POST /api/mcp/connect\<close>\<close>

record connect_request =
  connect_sessionId :: string
  connect_serverIds :: "string list option"

record connect_result =
  result_id :: string
  result_status :: string
  result_error :: "string option"

text \<open>The loop over \<open>serverIds\<close>; a failed connect is caught and reported per id.\<close>

fun connectLoop ::
  "world \<Rightarrow> server \<Rightarrow> string \<Rightarrow> string list \<Rightarrow> connect_result list
     \<Rightarrow> server \<times> connect_result list" where
  "connectLoop w st sessionId [] results = (st, results)"
| "connectLoop w st sessionId (serverId # serverIds) results =
     (let key = connectionKey sessionId serverId
      in if map_of (activeMCPConnections st) key \<noteq> None
         then connectLoop w st sessionId serverIds
                (results @ [\<lparr>result_id = serverId, result_status = ''already connected'',
                              result_error = None\<rparr>])
         else (case connectToMCPServer w st serverId of
                 (st', Inr client) \<Rightarrow>
                   connectLoop w
                     (st'\<lparr>activeMCPConnections :=
                            AList.update key client (activeMCPConnections st')\<rparr>)
                     sessionId serverIds
                     (results @ [\<lparr>result_id = serverId, result_status = ''connected'',
                                   result_error = None\<rparr>])
               | (st', Inl e) \<Rightarrow>
                   connectLoop w st' sessionId serverIds
                     (results @ [\<lparr>result_id = serverId, result_status = ''failed'',
                                   result_error = Some (message e)\<rparr>])))"

text \<open>An empty \<open>sessionId\<close> is falsy; \<open>None\<close> stands for \<open>serverIds\<close> that is no array.\<close>

definition connectEndpoint ::
  "world \<Rightarrow> server \<Rightarrow> connect_request \<Rightarrow> server \<times> connect_result list response" where
  "connectEndpoint w st req =
     (case connect_serverIds req of
        None \<Rightarrow> (st, Status 400 ''sessionId and serverIds are required'')
      | Some serverIds \<Rightarrow>
          if connect_sessionId req = []
          then (st, Status 400 ''sessionId and serverIds are required'')
          else (case connectLoop w st (connect_sessionId req) serverIds [] of
                  (st', results) \<Rightarrow> (st', Json results)))"

subsection \<open>\<open>POST /api/mcp/tools\<close>\<close>

record listed_tool =
  listed_serverId :: string
  listed_name :: string
  listed_description :: "string option"
  listed_inputSchema :: "(string \<times> json) list"

text \<open>\<open>t.inputSchema || {}\<close>\<close>

definition schemaOrEmpty :: "(string \<times> json) list option \<Rightarrow> (string \<times> json) list" where
  "schemaOrEmpty s = (case s of None \<Rightarrow> [] | Some obj \<Rightarrow> obj)"

definition listedTool :: "string \<Rightarrow> tool \<Rightarrow> listed_tool" where
  "listedTool serverId t =
     \<lparr>listed_serverId = serverId, listed_name = tool_name t,
      listed_description = tool_description t,
      listed_inputSchema = schemaOrEmpty (tool_inputSchema t)\<rparr>"

text \<open>
  The loop over the entries of the map. The filter is \<open>key.startsWith(sessionId)\<close>,
  without the hyphen; \<open>extractServerId\<close> then throws on a key of a longer session id.
\<close>

fun toolsLoop ::
  "world \<Rightarrow> string \<Rightarrow> (string \<times> client) list \<Rightarrow> listed_tool list \<Rightarrow> error + listed_tool list" where
  "toolsLoop w sessionId [] tools = Inr tools"
| "toolsLoop w sessionId ((key, client) # entries) tools =
     (if \<not> startsWith key sessionId then toolsLoop w sessionId entries tools
      else (case extractServerId key sessionId of
              Inl e \<Rightarrow> Inl e
            | Inr serverId \<Rightarrow>
                (case listTools w client of
                   Inl m \<Rightarrow> Inl (Error m)
                 | Inr svTools \<Rightarrow>
                     toolsLoop w sessionId entries (tools @ map (listedTool serverId) svTools))))"

definition toolsEndpoint :: "world \<Rightarrow> server \<Rightarrow> string \<Rightarrow> listed_tool list response" where
  "toolsEndpoint w st sessionId =
     (if sessionId = [] then Status 400 ''sessionId is required''
      else (case toolsLoop w sessionId (activeMCPConnections st) [] of
              Inl e \<Rightarrow> Status 500 ''Failed to list tools''
            | Inr tools \<Rightarrow> Json tools))"

subsection \<open>\<open>POST /api/mcp/disconnect\<close>\<close>

text \<open>\<open>parts[i]\<close>: \<open>None\<close> for \<open>undefined\<close>.\<close>

definition at_index :: "'a list \<Rightarrow> nat \<Rightarrow> 'a option" where
  "at_index xs i = (if i < length xs then Some (xs ! i) else None)"

text \<open>A value in a template literal: \<open>undefined\<close> prints as the word.\<close>

definition template :: "string option \<Rightarrow> string" where
  "template v = (case v of None \<Rightarrow> ''undefined'' | Some s \<Rightarrow> s)"

record disconnect_request =
  disconnect_sessionId :: string
  disconnect_serverIds :: "string list option"

text \<open>
  The ids to disconnect: the given array, or for every key that starts with the session
  id the second part of the key split at \<open>-\<close>.
\<close>

definition disconnectIds :: "server \<Rightarrow> disconnect_request \<Rightarrow> string option list" where
  "disconnectIds st req =
     (case disconnect_serverIds req of
        Some serverIds \<Rightarrow> map Some serverIds
      | None \<Rightarrow>
          map (\<lambda>k. at_index (split_str CHR ''-'' k) 1)
            (filter (\<lambda>k. startsWith k (disconnect_sessionId req))
               (map fst (activeMCPConnections st))))"

text \<open>The loop that closes and deletes; \<open>client.close()\<close> may throw.\<close>

fun disconnectLoop ::
  "world \<Rightarrow> server \<Rightarrow> string \<Rightarrow> string option list \<Rightarrow> string option list
     \<Rightarrow> server \<times> (error + string option list)" where
  "disconnectLoop w st sessionId [] disconnected = (st, Inr disconnected)"
| "disconnectLoop w st sessionId (v # ids) disconnected =
     (let key = connectionKey sessionId (template v)
      in case map_of (activeMCPConnections st) key of
           None \<Rightarrow> disconnectLoop w st sessionId ids disconnected
         | Some client \<Rightarrow>
             (case closeClient w client of
                Some m \<Rightarrow> (st, Inl (Error m))
              | None \<Rightarrow>
                  disconnectLoop w
                    (st\<lparr>closed := closed st @ [client],
                        activeMCPConnections := AList.delete key (activeMCPConnections st)\<rparr>)
                    sessionId ids (disconnected @ [v])))"

definition disconnectEndpoint ::
  "world \<Rightarrow> server \<Rightarrow> disconnect_request \<Rightarrow> server \<times> string option list response" where
  "disconnectEndpoint w st req =
     (if disconnect_sessionId req = [] then (st, Status 400 ''sessionId is required'')
      else (case disconnectLoop w st (disconnect_sessionId req) (disconnectIds st req) [] of
              (st', Inl e) \<Rightarrow> (st', Status 500 ''Failed to disconnect'')
            | (st', Inr disconnected) \<Rightarrow> (st', Json disconnected)))"

text \<open>
  The connections as the callers of \<open>/api/mcp/connect\<close> know them: the session and the
  provider a client was connected for. The server stores each under its key only.
\<close>

record connection =
  conn_session :: string
  conn_provider :: string
  conn_client :: client

definition registryOf :: "connection list \<Rightarrow> (string \<times> client) list" where
  "registryOf conns =
     map (\<lambda>c. (connectionKey (conn_session c) (conn_provider c), conn_client c)) conns"

section \<open>The agent backend (\<open>utils/mcpService.ts\<close>)\<close>

text \<open>An entry of \<open>CATALOGUE\<close>, with the fields \<open>connectToServer\<close> reads.\<close>

record MCPServer =
  server_id :: string
  server_command :: string
  server_args :: "string list"

definition CATALOGUE :: "MCPServer list" where
  "CATALOGUE =
     [\<lparr>server_id = ''filesystem'', server_command = ''npx'',
       server_args = [''-y'', ''@modelcontextprotocol/server-filesystem'', ''/home/pi2/Code/'']\<rparr>,
      \<lparr>server_id = ''brave-search'', server_command = ''npx'',
       server_args = [''-y'', ''@modelcontextprotocol/server-brave-search'']\<rparr>,
      \<lparr>server_id = ''puppeteer'', server_command = ''npx'',
       server_args = [''-y'', ''@modelcontextprotocol/server-puppeteer'']\<rparr>,
      \<lparr>server_id = ''postgres'', server_command = ''npx'',
       server_args = [''-y'', ''@modelcontextprotocol/server-postgres'']\<rparr>,
      \<lparr>server_id = ''github'', server_command = ''npx'',
       server_args = [''-y'', ''@modelcontextprotocol/server-github'']\<rparr>]"

text \<open>\<open>{ client, agent }\<close>: the client and the agent built for it, by their handles.\<close>

record ActiveConnection =
  active_client :: client
  active_agent :: nat

text \<open>
  Outside the program: the environment variable, the handshake of the n-th process and
  \<open>MCPTool.fromClient\<close> (\<open>Some\<close> of the message when they throw).
\<close>

record agent_world =
  BRAVE_API_KEY :: "string option"
  agentTransportConnect :: "nat \<Rightarrow> string \<Rightarrow> string option"
  fromClient :: "client \<Rightarrow> string option"

text \<open>The cache \<open>ACTIVE\<close> and the server ids of the processes started so far.\<close>

record agent_state =
  ACTIVE :: "string \<rightharpoonup> ActiveConnection"
  agentSpawned :: "string list"

text \<open>
  \<open>ACTIVE\<close> is a plain object, so \<open>ACTIVE[id]\<close> also finds what the object inherits
  from \<open>Object.prototype\<close>: for these names the test \<open>if (ACTIVE[id])\<close> is true
  whatever the cache holds.
\<close>

definition objectPrototypeNames :: "string list" where
  "objectPrototypeNames =
     [''constructor'', ''hasOwnProperty'', ''isPrototypeOf'', ''propertyIsEnumerable'',
      ''toLocaleString'', ''toString'', ''valueOf'', ''__proto__'', ''__defineGetter__'',
      ''__defineSetter__'', ''__lookupGetter__'', ''__lookupSetter__'']"

definition connectToServer :: "agent_world \<Rightarrow> agent_state \<Rightarrow> string \<Rightarrow> agent_state \<times> (error + unit)" where
  "connectToServer w st serverId =
     (if ACTIVE st serverId \<noteq> None \<or> serverId \<in> set objectPrototypeNames then (st, Inr ())
      else (case find (\<lambda>s. server_id s = serverId) CATALOGUE of
              None \<Rightarrow> (st, Inl (Error (''Unknown server '' @ [CHR 0x27] @ serverId @ [CHR 0x27])))
            | Some spec \<Rightarrow>
                if server_id spec = ''brave-search'' \<and>
                   (BRAVE_API_KEY w = None \<or> BRAVE_API_KEY w = Some [])
                then (st, Inl (Error
                  ''BRAVE_API_KEY environment variable is required for Brave Search server''))
                else (let client = length (agentSpawned st);
                          st' = st\<lparr>agentSpawned := agentSpawned st @ [serverId]\<rparr>
                      in case agentTransportConnect w client serverId of
                           Some m \<Rightarrow> (st', Inl (Error m))
                         | None \<Rightarrow>
                             (case fromClient w client of
                                Some m \<Rightarrow> (st', Inl (Error m))
                              | None \<Rightarrow>
                                  (st'\<lparr>ACTIVE := (ACTIVE st')(serverId \<mapsto>
                                         \<lparr>active_client = client, active_agent = client\<rparr>)\<rparr>,
                                   Inr ())))))"

section \<open>The chat endpoint (\<open>POST /api/chat\<close>)\<close>

subsection \<open>The tools offered to the model\<close>

text \<open>\<open>{ type: 'object', properties: {} }\<close>, the values as JSON text.\<close>

definition emptyParameters :: "(string \<times> json) list" where
  "emptyParameters = [(''type'', [CHR 0x22] @ ''object'' @ [CHR 0x22]), (''properties'', ''{}'')]"

text \<open>
  The entry pushed for a tool \<open>t\<close> of server \<open>serverId\<close>: the namespaced name,
  \<open>t.description || ''\<close>, and the input schema unless it is absent or has no keys.
\<close>

definition chatTool :: "string \<Rightarrow> tool \<Rightarrow> ChatCompletionTool" where
  "chatTool serverId t =
     \<lparr>function_name = encode serverId (tool_name t),
      function_description = (case tool_description t of None \<Rightarrow> [] | Some d \<Rightarrow> d),
      function_parameters =
        (case tool_inputSchema t of
           None \<Rightarrow> emptyParameters
         | Some obj \<Rightarrow> if length obj \<noteq> 0 then obj else emptyParameters)\<rparr>"

text \<open>The loop over the map; the filter is \<open>key.startsWith(`${sessionId}-`)\<close>.\<close>

fun toolsListLoop ::
  "world \<Rightarrow> string \<Rightarrow> (string \<times> client) list \<Rightarrow> ChatCompletionTool list
     \<Rightarrow> error + ChatCompletionTool list" where
  "toolsListLoop w sessionId [] toolsList = Inr toolsList"
| "toolsListLoop w sessionId ((key, client) # entries) toolsList =
     (if \<not> startsWith key (sessionId @ ''-'') then toolsListLoop w sessionId entries toolsList
      else (case extractServerId key sessionId of
              Inl e \<Rightarrow> Inl e
            | Inr serverId \<Rightarrow>
                (case listTools w client of
                   Inl m \<Rightarrow> Inl (Error m)
                 | Inr svTools \<Rightarrow>
                     toolsListLoop w sessionId entries
                       (toolsList @ map (chatTool serverId) svTools))))"

subsection \<open>Executing the tool calls of a turn\<close>

text \<open>
  \<open>typeof rawArgs === 'string' ? JSON.parse(rawArgs || '{}') : rawArgs || {}\<close>
\<close>

definition parseArgs :: "world \<Rightarrow> rawArgs \<Rightarrow> error + json" where
  "parseArgs w raw =
     (case raw of
        RawString s \<Rightarrow>
          (case JSON_parse w (if s = [] then ''{}'' else s) of
             None \<Rightarrow> Inl (SyntaxError ''Unexpected token in JSON'')
           | Some args \<Rightarrow> Inr args)
      | RawValue v \<Rightarrow> Inr v
      | RawFalsy \<Rightarrow> Inr ''{}'')"

text \<open>\<open>resultContent\<close>: the content of the tool's result, or the object \<open>{ error }\<close>.\<close>

datatype resultContent = Content "json option" | ErrorObject string

text \<open>
  The \<open>if (client) { try ... catch ... } else ...\<close> block for a call of the function
  \<open>fullName\<close> with parsed arguments.
\<close>

definition invokeTool ::
  "world \<Rightarrow> (string \<times> client) list \<Rightarrow> string \<Rightarrow> string \<Rightarrow> json \<Rightarrow> resultContent" where
  "invokeTool w connections sessionId fullName args =
     (case decode fullName of
        (serverId, fnName) \<Rightarrow>
          (case map_of connections (connectionKey sessionId serverId) of
             Some client \<Rightarrow>
               (case callTool w client fnName args of
                  Inr c \<Rightarrow> Content c
                | Inl m \<Rightarrow> ErrorObject m)
           | None \<Rightarrow> ErrorObject (''MCP server '' @ serverId @ '' not connected'')))"

text \<open>\<open>JSON.stringify(resultContent)\<close>, which is \<open>undefined\<close> for \<open>undefined\<close>.\<close>

definition stringify :: "world \<Rightarrow> resultContent \<Rightarrow> content" where
  "stringify w rc =
     (case rc of
        Content None \<Rightarrow> CUndefined
      | Content (Some j) \<Rightarrow> CStr j
      | ErrorObject m \<Rightarrow> CStr (stringifyError w m))"

text \<open>\<open>{ tool_call_id: call.id, role: 'tool', content: JSON.stringify(resultContent) }\<close>\<close>

definition toolMsg ::
  "world \<Rightarrow> (string \<times> client) list \<Rightarrow> string \<Rightarrow> tool_call \<Rightarrow> fn \<Rightarrow> json \<Rightarrow> msg" where
  "toolMsg w connections sessionId call f args =
     \<lparr>role = ''tool'',
      content = stringify w (invokeTool w connections sessionId (fn_name f) args),
      tool_calls = None,
      tool_call_id = Some (call_id call)\<rparr>"

text \<open>
  The loop \<open>for (const call of assistant.tool_calls)\<close>: it pushes each tool message to
  \<open>convo\<close> and to \<open>allToolResults\<close>. A SyntaxError of \<open>JSON.parse\<close> is not caught here.
\<close>

fun dispatchCalls ::
  "world \<Rightarrow> (string \<times> client) list \<Rightarrow> string \<Rightarrow> tool_call list \<Rightarrow> msg list \<Rightarrow> msg list
     \<Rightarrow> error + (msg list \<times> msg list)" where
  "dispatchCalls w connections sessionId [] convo allToolResults = Inr (convo, allToolResults)"
| "dispatchCalls w connections sessionId (call # calls) convo allToolResults =
     (case call_function call of
        None \<Rightarrow> dispatchCalls w connections sessionId calls convo allToolResults
      | Some f \<Rightarrow>
          (case parseArgs w (fn_arguments f) of
             Inl e \<Rightarrow> Inl e
           | Inr args \<Rightarrow>
               (let m = toolMsg w connections sessionId call f args
                in dispatchCalls w connections sessionId calls
                     (convo @ [m]) (allToolResults @ [m]))))"

subsection \<open>The turn loop\<close>

text \<open>The variables of the loop.\<close>

record chat_state =
  convo :: "msg list"
  allToolCalls :: "tool_call list"
  allToolResults :: "msg list"

text \<open>The body of the response: \<open>{ message, toolCalls, toolResults }\<close>.\<close>

record chat_result =
  result_message :: "assistant option"
  result_toolCalls :: "tool_call list"
  result_toolResults :: "msg list"

text \<open>\<open>{ role: 'assistant', content: null, tool_calls: assistant.tool_calls }\<close>\<close>

definition planningMsg :: "tool_call list \<Rightarrow> msg" where
  "planningMsg calls =
     \<lparr>role = ''assistant'', content = CNull, tool_calls = Some calls, tool_call_id = None\<rparr>"

text \<open>
  \<open>for (let turn = 0; turn < maxTurns; turn++)\<close>. \<open>lastAssistantMsg\<close> is assigned only
  before the \<open>break\<close>, so it is still \<open>null\<close> when the loop runs out of turns.
\<close>

function chatLoop ::
  "world \<Rightarrow> (string \<times> client) list \<Rightarrow> string \<Rightarrow> ChatCompletionTool list \<Rightarrow> chat_state
     \<Rightarrow> nat \<Rightarrow> int \<Rightarrow> error + chat_result" where
  "chatLoop w connections sessionId toolsList st turn maxTurns =
     (if int turn < maxTurns
      then (case pruneConversation (convo st) of
              Inl e \<Rightarrow> Inl e
            | Inr pruned \<Rightarrow>
                (case complete w turn pruned toolsList of
                   Inl m \<Rightarrow> Inl (Error m)
                 | Inr a \<Rightarrow>
                     (case assistant_tool_calls a of
                        Some (c # cs) \<Rightarrow>
                          (case dispatchCalls w connections sessionId (c # cs)
                                  (pruned @ [planningMsg (c # cs)]) (allToolResults st) of
                             Inl e \<Rightarrow> Inl e
                           | Inr (convo', results') \<Rightarrow>
                               chatLoop w connections sessionId toolsList
                                 \<lparr>convo = convo',
                                  allToolCalls = allToolCalls st @ (c # cs),
                                  allToolResults = results'\<rparr>
                                 (Suc turn) maxTurns)
                      | _ \<Rightarrow>
                          Inr \<lparr>result_message = Some a,
                               result_toolCalls = allToolCalls st,
                               result_toolResults = allToolResults st\<rparr>)))
      else Inr \<lparr>result_message = None,
                result_toolCalls = allToolCalls st,
                result_toolResults = allToolResults st\<rparr>)"
  by pat_completeness auto
termination
  by (relation "measure (\<lambda>(w, connections, sessionId, toolsList, st, turn, maxTurns).
                   nat (maxTurns - int turn))") auto

declare chatLoop.simps [simp del]

text \<open>
  The request body; \<open>None\<close> stands for \<open>messages\<close> that is no array, for an absent
  \<open>useMCP\<close> (default \<open>true\<close>) and for an absent \<open>maxTurns\<close> (default 6).
\<close>

record chat_request =
  chat_sessionId :: string
  chat_messages :: "msg list option"
  chat_useMCP :: "bool option"
  chat_maxTurns :: "int option"

definition chatEndpoint :: "world \<Rightarrow> server \<Rightarrow> chat_request \<Rightarrow> chat_result response" where
  "chatEndpoint w srv req =
     (case chat_messages req of
        None \<Rightarrow> Status 400 ''sessionId and messages are required''
      | Some messages \<Rightarrow>
          if chat_sessionId req = [] then Status 400 ''sessionId and messages are required''
          else (let useMCP = (case chat_useMCP req of None \<Rightarrow> True | Some b \<Rightarrow> b);
                    maxTurns = (case chat_maxTurns req of None \<Rightarrow> 6 | Some n \<Rightarrow> n)
                in case (if useMCP
                         then toolsListLoop w (chat_sessionId req) (activeMCPConnections srv) []
                         else Inr []) of
                     Inl e \<Rightarrow> Status 500 ''Failed to process chat''
                   | Inr toolsList \<Rightarrow>
                       (case chatLoop w (activeMCPConnections srv) (chat_sessionId req) toolsList
                               \<lparr>convo = messages, allToolCalls = [], allToolResults = []\<rparr>
                               0 maxTurns of
                          Inl e \<Rightarrow> Status 500 ''Failed to process chat''
                        | Inr r \<Rightarrow> Json r)))"

subsection \<open>Notions the claims about the loop are stated with\<close>

text \<open>The tool messages the dispatch loop appends for one call: one, or none.\<close>

definition callResult :: "world \<Rightarrow> (string \<times> client) list \<Rightarrow> string \<Rightarrow> tool_call \<Rightarrow> msg list" where
  "callResult w connections sessionId call =
     (case call_function call of
        None \<Rightarrow> []
      | Some f \<Rightarrow>
          (case parseArgs w (fn_arguments f) of
             Inl e \<Rightarrow> []
           | Inr args \<Rightarrow> [toolMsg w connections sessionId call f args]))"

text \<open>The arguments of the call, if it has a function, parse.\<close>

definition argsParse :: "world \<Rightarrow> tool_call \<Rightarrow> bool" where
  "argsParse w call =
     (case call_function call of
        None \<Rightarrow> True
      | Some f \<Rightarrow> (case parseArgs w (fn_arguments f) of Inl e \<Rightarrow> False | Inr args \<Rightarrow> True))"

text \<open>The calls an assistant message requests.\<close>

definition callsOf :: "assistant \<Rightarrow> tool_call list" where
  "callsOf a = (case assistant_tool_calls a of None \<Rightarrow> [] | Some calls \<Rightarrow> calls)"

text \<open>
  The turns of a run from state \<open>st\<close> at turn \<open>turn\<close> are tool turns with the answers
  \<open>answers\<close>: in each, pruning raises nothing, the model service gives the next answer
  to the pruned conversation, the answer requests calls, and their arguments parse.
\<close>

fun toolTurns ::
  "world \<Rightarrow> (string \<times> client) list \<Rightarrow> string \<Rightarrow> ChatCompletionTool list \<Rightarrow> chat_state
     \<Rightarrow> nat \<Rightarrow> assistant list \<Rightarrow> bool" where
  "toolTurns w connections sessionId toolsList st turn [] = True"
| "toolTurns w connections sessionId toolsList st turn (a # answers) =
     (case pruneConversation (convo st) of
        Inl e \<Rightarrow> False
      | Inr pruned \<Rightarrow>
          complete w turn pruned toolsList = Inr a \<and>
          callsOf a \<noteq> [] \<and>
          list_all (argsParse w) (callsOf a) \<and>
          toolTurns w connections sessionId toolsList
            \<lparr>convo = pruned @ [planningMsg (callsOf a)] @
                       concat (map (callResult w connections sessionId) (callsOf a)),
             allToolCalls = allToolCalls st @ callsOf a,
             allToolResults = allToolResults st @
                       concat (map (callResult w connections sessionId) (callsOf a))\<rparr>
            (Suc turn) answers)"

section \<open>A world for the examples\<close>

text \<open>
  One server in the curated list, providers that connect, list one tool, answer every
  call with an empty content array and close; a model that answers at once.
\<close>

definition exampleWorld :: world where
  "exampleWorld =
     \<lparr>CURATED_MCP_SERVERS =
        [\<lparr>cfg_id = ''fs'', cfg_command = Some ''npx'', cfg_args = Some [''-y'', ''server-filesystem'']\<rparr>],
      transportConnect = (\<lambda>n serverId. None),
      listTools = (\<lambda>c. Inr [\<lparr>tool_name = ''read_file'', tool_description = Some ''Read a file'',
                               tool_inputSchema = None\<rparr>]),
      callTool = (\<lambda>c toolName args. Inr (Some ''[]'')),
      closeClient = (\<lambda>c. None),
      JSON_parse = (\<lambda>s. if s = ''{}'' then Some ''{}'' else None),
      stringifyError = (\<lambda>m. ''{'' @ [CHR 0x22] @ ''error'' @ [CHR 0x22] @ '':'' @ [CHR 0x22] @ m
                              @ [CHR 0x22] @ ''}''),
      complete = (\<lambda>turn messages tools.
                    Inr \<lparr>assistant_content = Some ''done'', assistant_tool_calls = None\<rparr>)\<rparr>"

text \<open>Session \<open>s1\<close> connected to \<open>fs\<close>, and a first user message.\<close>

definition fsServer :: server where
  "fsServer = \<lparr>activeMCPConnections = [(''s1-fs'', 0)], spawned = [''fs''], closed = []\<rparr>"

definition hello :: msg where
  "hello = \<lparr>role = ''user'', content = CStr ''hello'', tool_calls = None, tool_call_id = None\<rparr>"

text \<open>
  Tool calls: of \<open>read_file\<close> on \<open>fs\<close>; without a \<open>function\<close> field; of a provider
  that is not connected; of a tool that throws; with arguments that are no JSON; of
  \<open>read_file\<close> on a provider named \<open>123-filesystem\<close>.
\<close>

definition read_file_call :: tool_call where
  "read_file_call =
     \<lparr>call_id = ''call_1'',
      call_function = Some \<lparr>fn_name = ''fs_read_file'', fn_arguments = RawString ''{}''\<rparr>\<rparr>"

definition read_file_result :: msg where
  "read_file_result =
     \<lparr>role = ''tool'', content = CStr ''[]'', tool_calls = None, tool_call_id = Some ''call_1''\<rparr>"

definition bare_call :: tool_call where
  "bare_call = \<lparr>call_id = ''call_2'', call_function = None\<rparr>"

definition unknown_call :: tool_call where
  "unknown_call =
     \<lparr>call_id = ''call_3'',
      call_function = Some \<lparr>fn_name = ''unknown_tool'', fn_arguments = RawString ''{}''\<rparr>\<rparr>"

definition boom_call :: tool_call where
  "boom_call =
     \<lparr>call_id = ''call_4'',
      call_function = Some \<lparr>fn_name = ''fs_boom'', fn_arguments = RawString ''{}''\<rparr>\<rparr>"

definition malformed_call :: tool_call where
  "malformed_call =
     \<lparr>call_id = ''call_5'',
      call_function = Some \<lparr>fn_name = ''unknown_tool'', fn_arguments = RawString ''{''\<rparr>\<rparr>"

definition foreign_call :: tool_call where
  "foreign_call =
     \<lparr>call_id = ''call_6'',
      call_function =
        Some \<lparr>fn_name = ''123-filesystem_read_file'', fn_arguments = RawString ''{}''\<rparr>\<rparr>"

text \<open>
  Worlds that differ from the first in one collaborator: a model that asks for
  \<open>read_file\<close> on every turn, with a remark as content; a model that asks once for a call
  without function and then reports whether it was shown a tool message; a model that
  asks for a call with and one without function; a provider whose tool \<open>boom\<close> throws.
\<close>

definition planningWorld :: world where
  "planningWorld =
     exampleWorld\<lparr>complete := (\<lambda>turn messages tools.
        Inr \<lparr>assistant_content = Some ''Let me read the file.'',
             assistant_tool_calls = Some [read_file_call]\<rparr>)\<rparr>"

definition bareWorld :: world where
  "bareWorld =
     exampleWorld\<lparr>complete := (\<lambda>turn messages tools.
        if turn = 0
        then Inr \<lparr>assistant_content = None, assistant_tool_calls = Some [bare_call]\<rparr>
        else Inr \<lparr>assistant_content =
                    Some (if list_ex (\<lambda>m. role m = ''tool'') messages
                          then ''tool result seen'' else ''no tool result seen''),
                  assistant_tool_calls = None\<rparr>)\<rparr>"

definition mixedWorld :: world where
  "mixedWorld =
     exampleWorld\<lparr>complete := (\<lambda>turn messages tools.
        Inr \<lparr>assistant_content = None,
             assistant_tool_calls = Some [read_file_call, bare_call]\<rparr>)\<rparr>"

text \<open>A model whose answer depends on the conversation it is shown.\<close>

definition dependentWorld :: world where
  "dependentWorld =
     exampleWorld\<lparr>complete := (\<lambda>turn messages tools.
        if list_ex (\<lambda>m. role m = ''tool'') messages
        then Inr \<lparr>assistant_content = Some ''One more.'',
                  assistant_tool_calls = Some [unknown_call]\<rparr>
        else Inr \<lparr>assistant_content = Some ''Let me read the file.'',
                  assistant_tool_calls = Some [read_file_call]\<rparr>)\<rparr>"

definition unknown_result :: msg where
  "unknown_result =
     \<lparr>role = ''tool'',
      content = CStr (stringifyError exampleWorld ''MCP server unknown not connected''),
      tool_calls = None, tool_call_id = Some ''call_3''\<rparr>"

definition faultyWorld :: world where
  "faultyWorld =
     exampleWorld\<lparr>callTool := (\<lambda>c toolName args.
        if toolName = ''boom'' then Inl ''tool failed'' else Inr (Some ''[]''))\<rparr>"

text \<open>A scraped page of 30000 code units as a tool result, its clipped form, a system prompt.\<close>

definition page :: msg where
  "page = \<lparr>role = ''tool'', content = CStr (replicate 30000 CHR ''x''),
            tool_calls = None, tool_call_id = Some ''call_1''\<rparr>"

definition clipped_page :: msg where
  "clipped_page = \<lparr>role = ''tool'', content = CStr (replicate 24000 CHR ''x'' @ truncated_marker),
            tool_calls = None, tool_call_id = Some ''call_1''\<rparr>"

definition be_brief :: msg where
  "be_brief = \<lparr>role = ''system'', content = CStr ''Be brief.'', tool_calls = None, tool_call_id = None\<rparr>"

section \<open>Properties of the namespacing\<close>

lemma split_str_not_Nil: "split_str sep s \<noteq> []"
  by (induction s) (auto split: list.splits)

lemma split_str_no_sep: "sep \<notin> set s \<Longrightarrow> split_str sep s = [s]"
  by (induction s) auto

lemma split_str_append:
  "sep \<notin> set p \<Longrightarrow> split_str sep (p @ sep # t) = p # split_str sep t"
  by (induction p) (auto split: list.splits)

lemma join_str_Cons:
  "ps \<noteq> [] \<Longrightarrow> join_str sep (p # ps) = p @ sep # join_str sep ps"
  by (cases ps) auto

lemma join_split: "join_str sep (split_str sep s) = s"
proof (induction s)
  case Nil
  show ?case by simp
next
  case (Cons c cs)
  show ?case
  proof (cases "c = sep")
    case True
    with Cons show ?thesis by (simp add: join_str_Cons split_str_not_Nil)
  next
    case False
    obtain p ps where sp: "split_str sep cs = p # ps"
      using split_str_not_Nil [of sep cs] by (cases "split_str sep cs") auto
    with Cons have "join_str sep (p # ps) = cs" by simp
    then have "join_str sep ((c # p) # ps) = c # cs"
      by (cases ps) auto
    with False sp show ?thesis by simp
  qed
qed

section \<open>Properties of the token estimate and of pruning\<close>

lemma strTokens_replicate: "strTokens (replicate n c) = (min n 1000000 + 2) div 3"
  by (simp add: strTokens_def BYTES_PER_TOKEN_def)

lemma foldl_addTokens_Inl: "foldl addTokens (Inl e) ms = Inl e"
  by (induction ms) simp_all

lemma foldl_addTokens_Inr:
  "foldl addTokens (Inr a) ms =
     (case foldl addTokens (Inr 0) ms of Inl e \<Rightarrow> Inl e | Inr k \<Rightarrow> Inr (a + k))"
proof (induction ms arbitrary: a)
  case Nil
  show ?case by simp
next
  case (Cons m ms)
  show ?case
  proof (cases "msgTokens m")
    case (Inl e)
    then show ?thesis by (simp add: foldl_addTokens_Inl)
  next
    case (Inr n)
    have "foldl addTokens (Inr a) (m # ms) = foldl addTokens (Inr (a + n)) ms"
      using Inr by simp
    also have "\<dots> = (case foldl addTokens (Inr 0) ms of Inl e \<Rightarrow> Inl e | Inr k \<Rightarrow> Inr (a + n + k))"
      by (rule Cons.IH)
    finally have lhs: "foldl addTokens (Inr a) (m # ms) =
        (case foldl addTokens (Inr 0) ms of Inl e \<Rightarrow> Inl e | Inr k \<Rightarrow> Inr (a + n + k))" .
    have "foldl addTokens (Inr 0) (m # ms) = foldl addTokens (Inr n) ms"
      using Inr by simp
    also have "\<dots> = (case foldl addTokens (Inr 0) ms of Inl e \<Rightarrow> Inl e | Inr k \<Rightarrow> Inr (n + k))"
      by (rule Cons.IH)
    finally have rhs: "foldl addTokens (Inr 0) (m # ms) =
        (case foldl addTokens (Inr 0) ms of Inl e \<Rightarrow> Inl e | Inr k \<Rightarrow> Inr (n + k))" .
    show ?thesis unfolding lhs rhs by (simp split: sum.splits)
  qed
qed

lemma totalTokens_Nil: "totalTokens [] = Inr 0"
  by (simp add: totalTokens_def)

lemma totalTokens_Cons:
  "totalTokens (m # ms) =
     (case msgTokens m of
        Inl e \<Rightarrow> Inl e
      | Inr n \<Rightarrow> (case totalTokens ms of Inl e \<Rightarrow> Inl e | Inr k \<Rightarrow> Inr (n + k)))"
proof (cases "msgTokens m")
  case (Inl e)
  then show ?thesis by (simp add: totalTokens_def foldl_addTokens_Inl)
next
  case (Inr n)
  then have "totalTokens (m # ms) = foldl addTokens (Inr n) ms"
    by (simp add: totalTokens_def)
  then show ?thesis
    using Inr foldl_addTokens_Inr [of n ms] by (simp add: totalTokens_def)
qed

lemma msgTokens_defined: "content m \<noteq> CUndefined \<Longrightarrow> \<exists>n. msgTokens m = Inr n"
  by (cases "content m") (simp_all add: msgTokens_def)

lemma totalTokens_defined:
  "\<forall>m\<in>set ms. content m \<noteq> CUndefined \<Longrightarrow> \<exists>n. totalTokens ms = Inr n"
proof (induction ms)
  case Nil
  show ?case by (simp add: totalTokens_Nil)
next
  case (Cons m ms)
  then obtain n k where "msgTokens m = Inr n" "totalTokens ms = Inr k"
    using msgTokens_defined [of m] by auto
  then show ?case by (simp add: totalTokens_Cons)
qed

lemma findIndex_None: "findIndex p xs = None \<Longrightarrow> \<forall>x\<in>set xs. \<not> p x"
  by (induction xs) (auto split: if_splits option.splits)

lemma subseq_splice1: "subseq (splice1 idx xs) xs"
  unfolding splice1_def
proof (induction xs arbitrary: idx)
  case Nil
  show ?case by simp
next
  case (Cons x xs)
  show ?case
  proof (cases idx)
    case 0
    show ?thesis unfolding 0 by (simp add: list_emb_Cons)
  next
    case (Suc j)
    show ?thesis unfolding Suc using Cons [of j] by simp
  qed
qed

lemma subseq_set_subset: "subseq xs ys \<Longrightarrow> set xs \<subseteq> set ys"
  by (induction rule: list_emb.induct) auto

lemma clipMessage_role: "role (clipMessage m) = role m"
  by (simp add: clipMessage_def Let_def split: content.splits)

lemma clipMessage_undefined: "content (clipMessage m) = CUndefined \<longleftrightarrow> content m = CUndefined"
  by (simp add: clipMessage_def Let_def split: content.splits)

lemma dropOldest_result:
  "\<forall>m\<in>set pruned. content m \<noteq> CUndefined \<Longrightarrow>
   \<exists>out n. dropOldest pruned = Inr out \<and> subseq out pruned \<and> totalTokens out = Inr n \<and>
     (n \<le> MAX_CONTEXT_TOKENS \<or> length out \<le> 1 \<or> (\<forall>m\<in>set out. role m = ''system''))"
proof (induction pruned rule: dropOldest.induct)
  case (1 pruned)
  obtain n where n: "totalTokens pruned = Inr n"
    using totalTokens_defined [OF "1.prems"] by blast
  show ?case
  proof (cases "n > MAX_CONTEXT_TOKENS \<and> length pruned > 1")
    case False
    then have "dropOldest pruned = Inr pruned" using n by auto
    with n False show ?thesis by auto
  next
    case True
    show ?thesis
    proof (cases "findIndex (\<lambda>m. role m \<noteq> ''system'') pruned")
      case None
      then have "dropOldest pruned = Inr pruned" using n True by simp
      moreover have "\<forall>m\<in>set pruned. role m = ''system''"
        using findIndex_None [OF None] by simp
      ultimately show ?thesis using n by auto
    next
      case (Some idx)
      have sub: "subseq (splice1 idx pruned) pruned" by (rule subseq_splice1)
      then have "set (splice1 idx pruned) \<subseteq> set pruned" by (rule subseq_set_subset)
      with "1.prems" have "\<forall>m\<in>set (splice1 idx pruned). content m \<noteq> CUndefined" by blast
      from "1.IH" [OF n True Some this]
      obtain out k where
        "dropOldest (splice1 idx pruned) = Inr out" "subseq out (splice1 idx pruned)"
        "totalTokens out = Inr k"
        "k \<le> MAX_CONTEXT_TOKENS \<or> length out \<le> 1 \<or> (\<forall>m\<in>set out. role m = ''system'')"
        by blast
      moreover have "dropOldest pruned = dropOldest (splice1 idx pruned)"
        using n True Some by simp
      ultimately show ?thesis using sub subseq_order.order_trans by metis
    qed
  qed
qed


section \<open>Claims about the namespacing\<close>

text \<open>
  Claim C1, as amended: for every provider id that does not contain the separator \<open>_\<close>
  and every tool name (the tool name may contain it), decoding the encoded name gives back
  the pair.
\<close>

theorem namespacing_roundtrip:
  assumes "CHR ''_'' \<notin> set serverId"
  shows "decode (encode serverId toolName) = (serverId, toolName)"
  using assms by (simp add: decode_def encode_def split_str_append join_split)

text \<open>The round trip at the provider \<open>brave-search\<close> and its tool \<open>brave_web_search\<close>.\<close>

theorem namespacing_roundtrip_witness:
  "CHR ''_'' \<notin> set ''brave-search'' \<and>
   decode (encode ''brave-search'' ''brave_web_search'') = (''brave-search'', ''brave_web_search'')"
  using namespacing_roundtrip [of "''brave-search''" "''brave_web_search''"] by simp

text \<open>
  Claim C1 as stated fails: a provider id with the separator in it is cut at its first
  \<open>_\<close>, and the rest of it goes to the tool name.
\<close>

theorem namespacing_roundtrip_counterexample:
  "decode (encode ''a_b'' ''c'') = (''a'', ''b_c'') \<and>
   decode (encode ''a_b'' ''c'') \<noteq> (''a_b'', ''c'')"
  by (simp add: decode_def encode_def)


section \<open>Claims about the budget manager\<close>

lemma strTokens_over:
  assumes "strTokens s > MAX_SINGLE_MSG_TOKENS"
  shows "length s > 24000"
  using assms by (simp add: strTokens_def MAX_SINGLE_MSG_TOKENS_def BYTES_PER_TOKEN_def Let_def split: if_splits) 

lemma clipMessage_oversize:
  assumes "content m = CStr s" and "strTokens s > MAX_SINGLE_MSG_TOKENS"
  shows "clipMessage m = m\<lparr>content := CStr (take 24000 s @ truncated_marker)\<rparr>"
    and "msgTokens (clipMessage m) = Inr 8004"
proof -
  show c: "clipMessage m = m\<lparr>content := CStr (take 24000 s @ truncated_marker)\<rparr>"
    using assms by (simp add: clipMessage_def MAX_SINGLE_MSG_TOKENS_def BYTES_PER_TOKEN_def)
  have "length (take 24000 s @ truncated_marker) = 24012"
    using strTokens_over [OF assms(2)] by (simp add: truncated_marker_def)
  then show "msgTokens (clipMessage m) = Inr 8004"
    unfolding c by (simp add: msgTokens_def strTokens_def BYTES_PER_TOKEN_def)
qed

lemma clipMessage_small:
  assumes "\<forall>s. content m = CStr s \<longrightarrow> strTokens s \<le> MAX_SINGLE_MSG_TOKENS"
  shows "clipMessage m = m"
  using assms by (auto simp add: clipMessage_def split: content.splits)

lemma pruneConversation_result:
  assumes "\<forall>m\<in>set messages. content m \<noteq> CUndefined"
  shows "\<exists>out n. pruneConversation messages = Inr out \<and> subseq out (map clipMessage messages) \<and>
           totalTokens out = Inr n \<and>
           (n \<le> MAX_CONTEXT_TOKENS \<or> length out \<le> 1 \<or> (\<forall>m\<in>set out. role m = ''system''))"
  unfolding pruneConversation_def
  by (rule dropOldest_result) (use assms in \<open>simp add: clipMessage_undefined\<close>)

lemma pruneConversation_under_budget:
  assumes "totalTokens (map clipMessage messages) = Inr n" and "n \<le> MAX_CONTEXT_TOKENS"
  shows "pruneConversation messages = Inr (map clipMessage messages)"
  using assms by (simp add: pruneConversation_def)




text \<open>
  Claim C4, as amended: \<open>pruneConversation\<close> returns clipped copies of input messages
  in their order, whatever the total (all of them when the clipped total is within the
  budget). A string content whose estimate exceeds \<open>MAX_SINGLE_MSG_TOKENS\<close> is cut to
  its first \<open>MAX_SINGLE_MSG_TOKENS * BYTES_PER_TOKEN\<close> code units and the marker is
  appended, which gives an estimate of \<open>MAX_SINGLE_MSG_TOKENS + 4\<close>; a content that is
  not a string is left as it is.
\<close>

theorem clipping_unconditional:
  assumes "\<forall>m\<in>set messages. content m \<noteq> CUndefined"
  shows "\<exists>out. pruneConversation messages = Inr out \<and>
           subseq out (map clipMessage messages) \<and>
           (\<forall>n. totalTokens (map clipMessage messages) = Inr n \<and> n \<le> MAX_CONTEXT_TOKENS
                \<longrightarrow> out = map clipMessage messages) \<and>
           (\<forall>m\<in>set messages. \<forall>s. content m = CStr s \<and> strTokens s > MAX_SINGLE_MSG_TOKENS \<longrightarrow>
                content (clipMessage m) =
                  CStr (take (MAX_SINGLE_MSG_TOKENS * BYTES_PER_TOKEN) s @ truncated_marker) \<and>
                msgTokens (clipMessage m) = Inr (MAX_SINGLE_MSG_TOKENS + 4)) \<and>
           (\<forall>m\<in>set messages. (\<forall>s. content m \<noteq> CStr s) \<longrightarrow> clipMessage m = m)"
proof -
  from pruneConversation_result [OF assms] obtain out where
    r: "pruneConversation messages = Inr out" "subseq out (map clipMessage messages)"
    by blast
  have u: "\<forall>n. totalTokens (map clipMessage messages) = Inr n \<and> n \<le> MAX_CONTEXT_TOKENS
                \<longrightarrow> out = map clipMessage messages"
    using pruneConversation_under_budget r(1) by fastforce
  have c: "\<forall>m\<in>set messages. \<forall>s. content m = CStr s \<and> strTokens s > MAX_SINGLE_MSG_TOKENS \<longrightarrow>
                content (clipMessage m) =
                  CStr (take (MAX_SINGLE_MSG_TOKENS * BYTES_PER_TOKEN) s @ truncated_marker) \<and>
                msgTokens (clipMessage m) = Inr (MAX_SINGLE_MSG_TOKENS + 4)"
    using clipMessage_oversize
    by (simp add: MAX_SINGLE_MSG_TOKENS_def BYTES_PER_TOKEN_def)
  have k: "\<forall>m\<in>set messages. (\<forall>s. content m \<noteq> CStr s) \<longrightarrow> clipMessage m = m"
    using clipMessage_small by simp
  from r u c k show ?thesis by blast
qed

text \<open>A tool result of 24001 code units is cut to 24000 and marked.\<close>

theorem clipping_unconditional_witness:
  "CStr (replicate 24001 CHR ''x'') \<noteq> CUndefined \<and>
   (\<exists>out. pruneConversation [\<lparr>role = ''tool'', content = CStr (replicate 24001 CHR ''x''),
                tool_calls = None, tool_call_id = Some ''call_1''\<rparr>] = Inr out \<and>
      out = [clipMessage \<lparr>role = ''tool'', content = CStr (replicate 24001 CHR ''x''),
                tool_calls = None, tool_call_id = Some ''call_1''\<rparr>] \<and>
      content (clipMessage \<lparr>role = ''tool'', content = CStr (replicate 24001 CHR ''x''),
                tool_calls = None, tool_call_id = Some ''call_1''\<rparr>) =
        CStr (replicate 24000 CHR ''x'' @ truncated_marker) \<and>
      msgTokens (clipMessage \<lparr>role = ''tool'', content = CStr (replicate 24001 CHR ''x''),
                tool_calls = None, tool_call_id = Some ''call_1''\<rparr>) = Inr 8004)"
  using clipping_unconditional
    [of "[\<lparr>role = ''tool'', content = CStr (replicate 24001 CHR ''x''),
           tool_calls = None, tool_call_id = Some ''call_1''\<rparr>]"]
  by (auto simp add: clipMessage_def totalTokens_def msgTokens_def strTokens_def
      MAX_SINGLE_MSG_TOKENS_def MAX_CONTEXT_TOKENS_def BYTES_PER_TOKEN_def truncated_marker_def)

text \<open>
  Claim C4 as stated fails: the clipped message costs 8004, more than the ceiling of 8000,
  because the marker is appended after the cut.
\<close>

theorem clipping_unconditional_counterexample:
  "msgTokens \<lparr>role = ''tool'', content = CStr (replicate 24001 CHR ''x''),
              tool_calls = None, tool_call_id = Some ''call_1''\<rparr> = Inr 8001 \<and>
   8001 > MAX_SINGLE_MSG_TOKENS \<and>
   pruneConversation [\<lparr>role = ''tool'', content = CStr (replicate 24001 CHR ''x''),
              tool_calls = None, tool_call_id = Some ''call_1''\<rparr>] =
     Inr [\<lparr>role = ''tool'', content = CStr (replicate 24000 CHR ''x'' @ truncated_marker),
              tool_calls = None, tool_call_id = Some ''call_1''\<rparr>] \<and>
   msgTokens \<lparr>role = ''tool'', content = CStr (replicate 24000 CHR ''x'' @ truncated_marker),
              tool_calls = None, tool_call_id = Some ''call_1''\<rparr> = Inr 8004 \<and>
   \<not> 8004 \<le> MAX_SINGLE_MSG_TOKENS"
  by (simp add: pruneConversation_def clipMessage_def totalTokens_def msgTokens_def
      strTokens_def BYTES_PER_TOKEN_def MAX_CONTEXT_TOKENS_def MAX_SINGLE_MSG_TOKENS_def
      truncated_marker_def)



text \<open>
  Pruning at work: after a system prompt, sixteen pages are clipped to 8004 tokens each,
  and the two oldest are dropped to get under the budget.
\<close>

lemma clip_page: "clipMessage page = clipped_page" "clipMessage be_brief = be_brief"
  by (simp_all add: clipMessage_def page_def clipped_page_def be_brief_def strTokens_def
      BYTES_PER_TOKEN_def MAX_SINGLE_MSG_TOKENS_def)

lemma tokens_page: "msgTokens clipped_page = Inr 8004" "msgTokens be_brief = Inr 3"
  by (simp_all add: msgTokens_def clipped_page_def be_brief_def strTokens_def BYTES_PER_TOKEN_def
      truncated_marker_def)

lemma total_pages: "totalTokens (be_brief # replicate n clipped_page) = Inr (3 + n * 8004)"
proof -
  have "totalTokens (replicate n clipped_page) = Inr (n * 8004)"
    by (induction n) (simp_all add: totalTokens_Nil totalTokens_Cons tokens_page)
  then show ?thesis by (simp add: totalTokens_Cons tokens_page)
qed

lemma findIndex_pages:
  "findIndex (\<lambda>m. role m \<noteq> ''system'') (be_brief # replicate (Suc n) clipped_page) = Some 1"
  by (simp add: be_brief_def clipped_page_def)

lemma splice_pages:
  "splice1 1 (be_brief # replicate (Suc n) clipped_page) = be_brief # replicate n clipped_page"
  by (simp add: splice1_def)

lemma prune_pages:
  "pruneConversation (be_brief # replicate 16 page) = Inr (be_brief # replicate 14 clipped_page)"
proof -
  have "pruneConversation (be_brief # replicate 16 page) =
      dropOldest (be_brief # replicate 16 clipped_page)"
    by (simp add: pruneConversation_def clip_page del: dropOldest.simps replicate.simps)
  also have "\<dots> = dropOldest (be_brief # replicate 15 clipped_page)"
    using findIndex_pages [of 15] splice_pages [of 15] total_pages [of 16]
    by (subst dropOldest.simps)
       (simp add: MAX_CONTEXT_TOKENS_def del: dropOldest.simps replicate.simps)
  also have "\<dots> = dropOldest (be_brief # replicate 14 clipped_page)"
    using findIndex_pages [of 14] splice_pages [of 14] total_pages [of 15]
    by (subst dropOldest.simps)
       (simp add: MAX_CONTEXT_TOKENS_def del: dropOldest.simps replicate.simps)
  also have "\<dots> = Inr (be_brief # replicate 14 clipped_page)"
    using total_pages [of 14]
    by (subst dropOldest.simps)
       (simp add: MAX_CONTEXT_TOKENS_def del: dropOldest.simps replicate.simps)
  finally show ?thesis .
qed

section \<open>The store model: frame and agreement with the value model\<close>

lemma unchanged_below_refl: "unchanged_below no na st st"
  by (simp add: unchanged_below_def)

lemma unchanged_below_trans:
  "unchanged_below no na st st1 \<Longrightarrow> unchanged_below no na st1 st2 \<Longrightarrow> unchanged_below no na st st2"
  by (simp add: unchanged_below_def)

lemma copyLoop_frame:
  "no \<le> nextObject st \<Longrightarrow> na \<le> pruned \<Longrightarrow> unchanged_below no na st (copyLoop st pruned ms)"
proof (induction ms arbitrary: st)
  case Nil
  show ?case by (simp add: unchanged_below_refl)
next
  case (Cons m ms)
  let ?st' = "push (clipMessage_at (fst (cloneMessage st m)) (nextObject st)) pruned (nextObject st)"
  have step: "unchanged_below no na st ?st'"
    using Cons.prems
    by (auto simp add: unchanged_below_def push_def clipMessage_at_def cloneMessage_def)
  have "no \<le> nextObject ?st'"
    using Cons.prems by (simp add: push_def clipMessage_at_def cloneMessage_def)
  from Cons.IH [OF this Cons.prems(2)] step
  have "unchanged_below no na st (copyLoop ?st' pruned ms)"
    by (rule unchanged_below_trans [rotated])
  then show ?case by (simp add: cloneMessage_def)
qed

lemma dropOldest_at_frame:
  "na \<le> pruned \<Longrightarrow> unchanged_below no na st (fst (dropOldest_at st pruned))"
proof (induction st pruned rule: dropOldest_at.induct)
  case (1 st pruned)
  show ?case
  proof (cases "totalTokens (map (objects st) (arrays st pruned))")
    case (Inl e)
    then show ?thesis by (simp add: dropOldest_at.simps [of st pruned] unchanged_below_refl)
  next
    case (Inr tokens)
    show ?thesis
    proof (cases "tokens > MAX_CONTEXT_TOKENS \<and> length (arrays st pruned) > 1")
      case False
      with Inr show ?thesis by (auto simp add: dropOldest_at.simps [of st pruned] unchanged_below_refl)
    next
      case True
      show ?thesis
      proof (cases "findIndex (\<lambda>a. role (objects st a) \<noteq> ''system'') (arrays st pruned)")
        case None
        with Inr True show ?thesis by (simp add: dropOldest_at.simps [of st pruned] unchanged_below_refl)
      next
        case (Some idx)
        let ?st' = "st\<lparr>arrays := (arrays st)(pruned := splice1 idx (arrays st pruned))\<rparr>"
        have "unchanged_below no na st ?st'"
          using "1.prems" by (simp add: unchanged_below_def)
        moreover have "unchanged_below no na ?st' (fst (dropOldest_at ?st' pruned))"
          using "1.IH" [OF Inr True Some "1.prems"] .
        ultimately have "unchanged_below no na st (fst (dropOldest_at ?st' pruned))"
          by (rule unchanged_below_trans)
        moreover have "dropOldest_at st pruned = dropOldest_at ?st' pruned"
          using Inr True Some by (simp add: dropOldest_at.simps [of st pruned])
        ultimately show ?thesis by simp
      qed
    qed
  qed
qed

lemma pruneConversation_at_frame:
  "unchanged_below (nextObject st) (nextArray st) st (fst (pruneConversation_at st messages))"
proof -
  let ?st1 = "fst (newArray st)"
  let ?p = "nextArray st"
  let ?st2 = "copyLoop ?st1 ?p (arrays ?st1 messages)"
  have a: "unchanged_below (nextObject st) (nextArray st) st ?st1"
    by (simp add: unchanged_below_def newArray_def)
  have b: "unchanged_below (nextObject st) (nextArray st) ?st1 ?st2"
    by (rule copyLoop_frame) (simp_all add: newArray_def)
  have c: "unchanged_below (nextObject st) (nextArray st) ?st2 (fst (dropOldest_at ?st2 ?p))"
    by (rule dropOldest_at_frame) simp
  have "pruneConversation_at st messages = dropOldest_at ?st2 ?p"
    by (simp add: pruneConversation_at_def newArray_def)
  with a b c show ?thesis
    by (metis unchanged_below_trans)
qed


lemma findIndex_map: "findIndex p (map f xs) = findIndex (\<lambda>x. p (f x)) xs"
  by (induction xs) simp_all

lemma map_splice1: "map f (splice1 idx xs) = splice1 idx (map f xs)"
  by (simp add: splice1_def take_map drop_map)

lemma copyLoop_nextArray: "nextArray (copyLoop st pruned ms) = nextArray st"
  by (induction ms arbitrary: st) (simp_all add: cloneMessage_def clipMessage_at_def push_def)

lemma copyLoop_array:
  "arrays (copyLoop st pruned ms) pruned =
     arrays st pruned @ [nextObject st ..< nextObject st + length ms]"
proof (induction ms arbitrary: st)
  case Nil
  show ?case by simp
next
  case (Cons m ms)
  let ?st' = "push (clipMessage_at (fst (cloneMessage st m)) (nextObject st)) pruned (nextObject st)"
  have "arrays (copyLoop ?st' pruned ms) pruned =
      arrays ?st' pruned @ [nextObject ?st' ..< nextObject ?st' + length ms]"
    by (rule Cons.IH)
  moreover have "arrays ?st' pruned = arrays st pruned @ [nextObject st]"
    and "nextObject ?st' = Suc (nextObject st)"
    by (simp_all add: cloneMessage_def clipMessage_at_def push_def)
  moreover have "[nextObject st ..< nextObject st + length (m # ms)] =
      nextObject st # [Suc (nextObject st) ..< Suc (nextObject st) + length ms]"
    using upt_conv_Cons [of "nextObject st" "nextObject st + Suc (length ms)"] by simp
  ultimately show ?case
    by (simp add: cloneMessage_def)
qed

lemma copyLoop_values:
  assumes "\<forall>m\<in>set ms. m < nextObject st" and "\<forall>a\<in>set (arrays st pruned). a < nextObject st"
  shows "deref (copyLoop st pruned ms) pruned =
           deref st pruned @ map (\<lambda>m. clipMessage (objects st m)) ms"
  using assms
proof (induction ms arbitrary: st)
  case Nil
  show ?case by simp
next
  case (Cons m ms)
  let ?st' = "push (clipMessage_at (fst (cloneMessage st m)) (nextObject st)) pruned (nextObject st)"
  have arr: "arrays ?st' pruned = arrays st pruned @ [nextObject st]"
    and nxt: "nextObject ?st' = Suc (nextObject st)"
    and obj: "objects ?st' = (objects st)(nextObject st := clipMessage (objects st m))"
    by (simp_all add: cloneMessage_def clipMessage_at_def push_def)
  have p1: "\<forall>m\<in>set ms. m < nextObject ?st'"
    using Cons.prems(1) nxt by auto
  have p2: "\<forall>a\<in>set (arrays ?st' pruned). a < nextObject ?st'"
    using Cons.prems(2) arr nxt by auto
  have "deref (copyLoop ?st' pruned ms) pruned =
      deref ?st' pruned @ map (\<lambda>m. clipMessage (objects ?st' m)) ms"
    by (rule Cons.IH [OF p1 p2])
  moreover have "deref ?st' pruned = deref st pruned @ [clipMessage (objects st m)]"
    using Cons.prems(2) by (auto simp add: deref_def arr obj)
  moreover have "map (\<lambda>m. clipMessage (objects ?st' m)) ms = map (\<lambda>m. clipMessage (objects st m)) ms"
    using Cons.prems(1) by (auto simp add: obj)
  ultimately show ?case by (simp add: cloneMessage_def)
qed

lemma dropOldest_at_values:
  "(case snd (dropOldest_at st pruned) of
      Inl e \<Rightarrow> dropOldest (deref st pruned) = Inl e
    | Inr p \<Rightarrow> p = pruned \<and>
               dropOldest (deref st pruned) = Inr (deref (fst (dropOldest_at st pruned)) pruned))"
proof (induction st pruned rule: dropOldest_at.induct)
  case (1 st pruned)
  show ?case
  proof (cases "totalTokens (map (objects st) (arrays st pruned))")
    case (Inl e)
    then show ?thesis by (simp add: dropOldest_at.simps [of st pruned] deref_def)
  next
    case (Inr tokens)
    show ?thesis
    proof (cases "tokens > MAX_CONTEXT_TOKENS \<and> length (arrays st pruned) > 1")
      case False
      with Inr show ?thesis by (auto simp add: dropOldest_at.simps [of st pruned] deref_def)
    next
      case True
      show ?thesis
      proof (cases "findIndex (\<lambda>a. role (objects st a) \<noteq> ''system'') (arrays st pruned)")
        case None
        with Inr True show ?thesis
          by (simp add: dropOldest_at.simps [of st pruned] deref_def findIndex_map)
      next
        case (Some idx)
        let ?st' = "st\<lparr>arrays := (arrays st)(pruned := splice1 idx (arrays st pruned))\<rparr>"
        have eq: "dropOldest_at st pruned = dropOldest_at ?st' pruned"
          using Inr True Some by (simp add: dropOldest_at.simps [of st pruned])
        have d: "deref ?st' pruned = splice1 idx (deref st pruned)"
          by (simp add: deref_def map_splice1)
        have "dropOldest (map (objects st) (arrays st pruned)) =
            dropOldest (splice1 idx (map (objects st) (arrays st pruned)))"
          using Inr True Some
          by (subst dropOldest.simps) (simp add: findIndex_map del: dropOldest.simps)
        then have e: "dropOldest (deref st pruned) = dropOldest (splice1 idx (deref st pruned))"
          by (simp add: deref_def del: dropOldest.simps)
        from "1.IH" [OF Inr True Some] show ?thesis
          unfolding eq d e .
      qed
    qed
  qed
qed

lemma dropOldest_at_result:
  "(\<forall>p. snd (dropOldest_at st pruned) = Inr p \<longrightarrow> p = pruned) \<and>
   set (arrays (fst (dropOldest_at st pruned)) pruned) \<subseteq> set (arrays st pruned)"
proof (induction st pruned rule: dropOldest_at.induct)
  case (1 st pruned)
  show ?case
  proof (cases "totalTokens (map (objects st) (arrays st pruned))")
    case (Inl e)
    then show ?thesis by (simp add: dropOldest_at.simps [of st pruned])
  next
    case (Inr tokens)
    show ?thesis
    proof (cases "tokens > MAX_CONTEXT_TOKENS \<and> length (arrays st pruned) > 1")
      case False
      with Inr show ?thesis by (auto simp add: dropOldest_at.simps [of st pruned])
    next
      case True
      show ?thesis
      proof (cases "findIndex (\<lambda>a. role (objects st a) \<noteq> ''system'') (arrays st pruned)")
        case None
        with Inr True show ?thesis by (simp add: dropOldest_at.simps [of st pruned])
      next
        case (Some idx)
        let ?st' = "st\<lparr>arrays := (arrays st)(pruned := splice1 idx (arrays st pruned))\<rparr>"
        have eq: "dropOldest_at st pruned = dropOldest_at ?st' pruned"
          using Inr True Some by (simp add: dropOldest_at.simps [of st pruned])
        have "set (arrays ?st' pruned) \<subseteq> set (arrays st pruned)"
          using subseq_set_subset [OF subseq_splice1] by simp
        with "1.IH" [OF Inr True Some] show ?thesis
          unfolding eq by blast
      qed
    qed
  qed
qed

text \<open>
  On an allocated array of allocated messages the store model returns what the value
  model \<open>pruneConversation\<close> computes from the messages the argument refers to.
\<close>

lemma pruneConversation_at_refines:
  assumes "messages < nextArray st" and "\<forall>m\<in>set (arrays st messages). m < nextObject st"
  shows "(case snd (pruneConversation_at st messages) of
            Inl e \<Rightarrow> pruneConversation (deref st messages) = Inl e
          | Inr p \<Rightarrow> pruneConversation (deref st messages) =
                       Inr (deref (fst (pruneConversation_at st messages)) p))"
proof -
  let ?st1 = "fst (newArray st)"
  let ?p = "nextArray st"
  let ?st2 = "copyLoop ?st1 ?p (arrays ?st1 messages)"
  have pc: "pruneConversation_at st messages = dropOldest_at ?st2 ?p"
    by (simp add: pruneConversation_at_def newArray_def)
  have m: "arrays ?st1 messages = arrays st messages"
    using assms(1) by (simp add: newArray_def)
  have "deref ?st2 ?p = deref ?st1 ?p @ map (\<lambda>m. clipMessage (objects ?st1 m)) (arrays ?st1 messages)"
    by (rule copyLoop_values) (use assms in \<open>simp_all add: newArray_def\<close>)
  then have "deref ?st2 ?p = map clipMessage (deref st messages)"
    using assms(1) by (simp add: deref_def newArray_def)
  then have "dropOldest (deref ?st2 ?p) = pruneConversation (deref st messages)"
    by (simp add: pruneConversation_def)
  with dropOldest_at_values [of ?st2 ?p] show ?thesis
    unfolding pc by (auto split: sum.splits)
qed

text \<open>
  Claim C10: \<open>pruneConversation\<close> leaves every object and every array that exists
  before the call as it is, so neither the input array nor a message in it is written,
  also when the call ends in an exception; the array it returns is a new one and holds
  only references to objects allocated during the call (the clipped copies).
\<close>

theorem pruneConversation_frame:
  "(\<forall>a<nextObject st. objects (fst (pruneConversation_at st messages)) a = objects st a) \<and>
   (\<forall>a<nextArray st. arrays (fst (pruneConversation_at st messages)) a = arrays st a) \<and>
   (\<forall>p. snd (pruneConversation_at st messages) = Inr p \<longrightarrow>
        nextArray st \<le> p \<and>
        (\<forall>a\<in>set (arrays (fst (pruneConversation_at st messages)) p). nextObject st \<le> a))"
proof -
  let ?st1 = "fst (newArray st)"
  let ?p = "nextArray st"
  let ?st2 = "copyLoop ?st1 ?p (arrays ?st1 messages)"
  have pc: "pruneConversation_at st messages = dropOldest_at ?st2 ?p"
    by (simp add: pruneConversation_at_def newArray_def)
  have "arrays ?st2 ?p = arrays ?st1 ?p @ [nextObject ?st1 ..< nextObject ?st1 + length (arrays ?st1 messages)]"
    by (rule copyLoop_array)
  then have fresh: "\<forall>a\<in>set (arrays ?st2 ?p). nextObject st \<le> a"
    by (simp add: newArray_def)
  have "\<forall>p. snd (pruneConversation_at st messages) = Inr p \<longrightarrow>
        nextArray st \<le> p \<and>
        (\<forall>a\<in>set (arrays (fst (pruneConversation_at st messages)) p). nextObject st \<le> a)"
    using dropOldest_at_result [of ?st2 ?p] fresh unfolding pc by blast
  with pruneConversation_at_frame [of st messages] show ?thesis
    by (simp add: unchanged_below_def)
qed


text \<open>
  A store with one array holding one oversized user message: after the call the message
  and the array are as before, and the new array refers to the clipped copy.
\<close>

theorem pruneConversation_frame_witness:
  "objects (fst (pruneConversation_at
      \<lparr>objects = (\<lambda>a. \<lparr>role = ''user'', content = CStr (replicate 24001 CHR ''x''),
                          tool_calls = None, tool_call_id = None\<rparr>),
       arrays = (\<lambda>a. [0]), nextObject = 1, nextArray = 1\<rparr> 0)) 0 =
     \<lparr>role = ''user'', content = CStr (replicate 24001 CHR ''x''),
      tool_calls = None, tool_call_id = None\<rparr> \<and>
   arrays (fst (pruneConversation_at
      \<lparr>objects = (\<lambda>a. \<lparr>role = ''user'', content = CStr (replicate 24001 CHR ''x''),
                          tool_calls = None, tool_call_id = None\<rparr>),
       arrays = (\<lambda>a. [0]), nextObject = 1, nextArray = 1\<rparr> 0)) 0 = [0] \<and>
   snd (pruneConversation_at
      \<lparr>objects = (\<lambda>a. \<lparr>role = ''user'', content = CStr (replicate 24001 CHR ''x''),
                          tool_calls = None, tool_call_id = None\<rparr>),
       arrays = (\<lambda>a. [0]), nextObject = 1, nextArray = 1\<rparr> 0) = Inr 1 \<and>
   deref (fst (pruneConversation_at
      \<lparr>objects = (\<lambda>a. \<lparr>role = ''user'', content = CStr (replicate 24001 CHR ''x''),
                          tool_calls = None, tool_call_id = None\<rparr>),
       arrays = (\<lambda>a. [0]), nextObject = 1, nextArray = 1\<rparr> 0)) 1 =
     [\<lparr>role = ''user'', content = CStr (replicate 24000 CHR ''x'' @ truncated_marker),
       tool_calls = None, tool_call_id = None\<rparr>]"
  using pruneConversation_frame
    [of "\<lparr>objects = (\<lambda>a. \<lparr>role = ''user'', content = CStr (replicate 24001 CHR ''x''),
                          tool_calls = None, tool_call_id = None\<rparr>),
       arrays = (\<lambda>a. [0]), nextObject = 1, nextArray = 1\<rparr>" 0]
  by (simp add: pruneConversation_at_def newArray_def cloneMessage_def clipMessage_at_def
      push_def dropOldest_at.simps deref_def clipMessage_def totalTokens_def msgTokens_def
      strTokens_def MAX_SINGLE_MSG_TOKENS_def MAX_CONTEXT_TOKENS_def BYTES_PER_TOKEN_def)

section \<open>Claims about the registry\<close>

lemma startsWith_append: "startsWith (p @ s) p"
  by (simp add: startsWith_def)

lemma startsWith_appendD: "startsWith k p \<Longrightarrow> k = p @ drop (length p) k"
  by (metis append_take_drop_id startsWith_def)

lemma takeWhile_sep: "c \<notin> set s \<Longrightarrow> takeWhile (\<lambda>x. x \<noteq> c) (s @ c # p) = s"
  by (induction s) auto

lemma dash_boundary:
  assumes "c \<notin> set s" and "c \<notin> set s'" and "s @ c # p = s' @ c # p'"
  shows "s = s' \<and> p = p'"
proof -
  have "takeWhile (\<lambda>x. x \<noteq> c) (s @ c # p) = s" "takeWhile (\<lambda>x. x \<noteq> c) (s' @ c # p') = s'"
    using assms(1,2) by (simp_all add: takeWhile_sep)
  with assms(3) have "s = s'" by simp
  with assms(3) show ?thesis by simp
qed

lemma connectionKey_inject:
  assumes "CHR ''-'' \<notin> set s" and "CHR ''-'' \<notin> set s'"
    and "connectionKey s p = connectionKey s' p'"
  shows "s = s' \<and> p = p'"
  using dash_boundary [OF assms(1,2), of p p'] assms(3) by (simp add: connectionKey_def)

lemma startsWith_connectionKey:
  assumes "CHR ''-'' \<notin> set s" and "CHR ''-'' \<notin> set sid"
  shows "startsWith (connectionKey s p) (sid @ ''-'') \<longleftrightarrow> s = sid"
proof
  assume "startsWith (connectionKey s p) (sid @ ''-'')"
  then have "connectionKey s p = (sid @ ''-'') @ drop (length (sid @ ''-'')) (connectionKey s p)"
    by (rule startsWith_appendD)
  then have "s @ CHR ''-'' # p = sid @ CHR ''-'' # drop (length (sid @ ''-'')) (connectionKey s p)"
    by (simp add: connectionKey_def)
  from dash_boundary [OF assms this] show "s = sid" by simp
next
  assume "s = sid"
  then show "startsWith (connectionKey s p) (sid @ ''-'')"
    by (simp add: connectionKey_def startsWith_def)
qed

lemma extractServerId_connectionKey: "extractServerId (connectionKey sid p) sid = Inr p"
  by (simp add: connectionKey_def startsWith_def)

lemma split_connectionKey:
  assumes "CHR ''-'' \<notin> set sid" and "CHR ''-'' \<notin> set p"
  shows "at_index (split_str CHR ''-'' (connectionKey sid p)) 1 = Some p"
  using assms by (simp add: connectionKey_def split_str_append split_str_no_sep at_index_def)

lemma disconnectLoop_closes:
  assumes "\<forall>c. closeClient w c = None"
  shows "\<exists>st' ds. disconnectLoop w st sid ids disconnected = (st', Inr ds) \<and>
           (\<forall>k. map_of (activeMCPConnections st') k =
                  (if k \<in> (\<lambda>v. connectionKey sid (template v)) ` set ids then None
                   else map_of (activeMCPConnections st) k)) \<and>
           (\<forall>v\<in>set ids. \<forall>c. map_of (activeMCPConnections st) (connectionKey sid (template v)) = Some c
                  \<longrightarrow> c \<in> set (closed st')) \<and>
           set (closed st) \<subseteq> set (closed st')"
proof (induction ids arbitrary: st disconnected)
  case Nil
  show ?case by simp
next
  case (Cons v ids)
  let ?key = "connectionKey sid (template v)"
  show ?case
  proof (cases "map_of (activeMCPConnections st) ?key")
    case None
    from Cons.IH [of st disconnected] obtain st' ds where
      r: "disconnectLoop w st sid ids disconnected = (st', Inr ds)"
      and m: "\<forall>k. map_of (activeMCPConnections st') k =
                  (if k \<in> (\<lambda>v. connectionKey sid (template v)) ` set ids then None
                   else map_of (activeMCPConnections st) k)"
      and c: "\<forall>v\<in>set ids. \<forall>c. map_of (activeMCPConnections st) (connectionKey sid (template v)) = Some c
                  \<longrightarrow> c \<in> set (closed st')"
      and s: "set (closed st) \<subseteq> set (closed st')"
      by blast
    have "disconnectLoop w st sid (v # ids) disconnected = (st', Inr ds)"
      using None r by simp
    moreover have "\<forall>k. map_of (activeMCPConnections st') k =
                  (if k \<in> (\<lambda>v. connectionKey sid (template v)) ` set (v # ids) then None
                   else map_of (activeMCPConnections st) k)"
      using m None by auto
    moreover have "\<forall>u\<in>set (v # ids). \<forall>c. map_of (activeMCPConnections st) (connectionKey sid (template u)) = Some c
                  \<longrightarrow> c \<in> set (closed st')"
      using c None by auto
    ultimately show ?thesis using s by blast
  next
    case (Some client)
    let ?st1 = "st\<lparr>closed := closed st @ [client],
                    activeMCPConnections := AList.delete ?key (activeMCPConnections st)\<rparr>"
    from Cons.IH [of ?st1 "disconnected @ [v]"] obtain st' ds where
      r: "disconnectLoop w ?st1 sid ids (disconnected @ [v]) = (st', Inr ds)"
      and m: "\<forall>k. map_of (activeMCPConnections st') k =
                  (if k \<in> (\<lambda>v. connectionKey sid (template v)) ` set ids then None
                   else map_of (activeMCPConnections ?st1) k)"
      and c: "\<forall>v\<in>set ids. \<forall>c. map_of (activeMCPConnections ?st1) (connectionKey sid (template v)) = Some c
                  \<longrightarrow> c \<in> set (closed st')"
      and s: "set (closed ?st1) \<subseteq> set (closed st')"
      by blast
    have d: "\<And>k. map_of (activeMCPConnections ?st1) k =
               (if k = ?key then None else map_of (activeMCPConnections st) k)"
      by (simp add: delete_conv')
    have "disconnectLoop w st sid (v # ids) disconnected = (st', Inr ds)"
      using Some r assms by simp
    moreover have "\<forall>k. map_of (activeMCPConnections st') k =
                  (if k \<in> (\<lambda>v. connectionKey sid (template v)) ` set (v # ids) then None
                   else map_of (activeMCPConnections st) k)"
      using m d by auto
    moreover have "\<forall>u\<in>set (v # ids). \<forall>c. map_of (activeMCPConnections st) (connectionKey sid (template u)) = Some c
                  \<longrightarrow> c \<in> set (closed st')"
    proof (intro ballI allI impI)
      fix u c
      assume u: "u \<in> set (v # ids)"
        and uc: "map_of (activeMCPConnections st) (connectionKey sid (template u)) = Some c"
      show "c \<in> set (closed st')"
      proof (cases "connectionKey sid (template u) = ?key")
        case True
        with uc Some have "c = client" by simp
        with s show ?thesis by auto
      next
        case False
        with u have "u \<in> set ids" by auto
        moreover have "map_of (activeMCPConnections ?st1) (connectionKey sid (template u)) = Some c"
          using False uc d by simp
        ultimately show ?thesis using c by blast
      qed
    qed
    moreover have "set (closed st) \<subseteq> set (closed st')"
      using s by auto
    ultimately show ?thesis by blast
  qed
qed

lemma map_of_key_in_keys: "map_of al k = Some v \<Longrightarrow> k \<in> set (map fst al)"
  by (metis map_of_eq_None_iff option.distinct(1) set_map)

lemma connectionKey_startsWith: "startsWith (connectionKey sid p) sid"
  by (simp add: connectionKey_def startsWith_def)

lemma connectionKey_startsWith_dash: "startsWith (connectionKey sid p) (sid @ ''-'')"
  by (simp add: connectionKey_def startsWith_def)

text \<open>
  What disconnect-all does when neither the session id nor the provider ids contain
  \<open>-\<close> and every \<open>close\<close> succeeds: every connection of the session is closed and
  removed, and entries whose key does not start with the session id and \<open>-\<close> stay.
  Among session ids without \<open>-\<close> the key determines the session and the provider.
\<close>

lemma disconnect_all_dash_free:
  assumes "sid \<noteq> []" and "CHR ''-'' \<notin> set sid" and "\<forall>c. closeClient w c = None"
  shows "\<exists>st' ds.
           disconnectEndpoint w st \<lparr>disconnect_sessionId = sid, disconnect_serverIds = None\<rparr> =
             (st', Json ds) \<and>
           (\<forall>p c. CHR ''-'' \<notin> set p \<and>
                   map_of (activeMCPConnections st) (connectionKey sid p) = Some c \<longrightarrow>
                   map_of (activeMCPConnections st') (connectionKey sid p) = None \<and>
                   c \<in> set (closed st')) \<and>
           (\<forall>k. \<not> startsWith k (sid @ ''-'') \<longrightarrow>
                   map_of (activeMCPConnections st') k = map_of (activeMCPConnections st) k) \<and>
           (\<forall>s p s' p'. CHR ''-'' \<notin> set s \<and> CHR ''-'' \<notin> set s' \<and>
                   connectionKey s p = connectionKey s' p' \<longrightarrow> s = s' \<and> p = p')"
proof -
  let ?req = "\<lparr>disconnect_sessionId = sid, disconnect_serverIds = None\<rparr>"
  let ?ids = "disconnectIds st ?req"
  from disconnectLoop_closes [OF assms(3), of st sid ?ids "[]"] obtain st' ds where
    r: "disconnectLoop w st sid ?ids [] = (st', Inr ds)"
    and m: "\<forall>k. map_of (activeMCPConnections st') k =
                  (if k \<in> (\<lambda>v. connectionKey sid (template v)) ` set ?ids then None
                   else map_of (activeMCPConnections st) k)"
    and c: "\<forall>v\<in>set ?ids. \<forall>c. map_of (activeMCPConnections st) (connectionKey sid (template v)) = Some c
                  \<longrightarrow> c \<in> set (closed st')"
    by blast
  have e: "disconnectEndpoint w st ?req = (st', Json ds)"
    using r assms(1) by (simp add: disconnectEndpoint_def)
  have a: "\<forall>p c. CHR ''-'' \<notin> set p \<and>
                   map_of (activeMCPConnections st) (connectionKey sid p) = Some c \<longrightarrow>
                   map_of (activeMCPConnections st') (connectionKey sid p) = None \<and>
                   c \<in> set (closed st')"
  proof (intro allI impI, elim conjE)
    fix p c
    assume p: "CHR ''-'' \<notin> set p"
      and pc: "map_of (activeMCPConnections st) (connectionKey sid p) = Some c"
    have "connectionKey sid p \<in> set (map fst (activeMCPConnections st))"
      using pc by (rule map_of_key_in_keys)
    then have "at_index (split_str CHR ''-'' (connectionKey sid p)) 1 \<in> set ?ids"
      using connectionKey_startsWith [of sid p] by (auto simp add: disconnectIds_def)
    then have i: "Some p \<in> set ?ids"
      using split_connectionKey [OF assms(2) p] by simp
    then have "connectionKey sid p \<in> (\<lambda>v. connectionKey sid (template v)) ` set ?ids"
      by (force simp add: template_def)
    with m have "map_of (activeMCPConnections st') (connectionKey sid p) = None" by simp
    moreover have "c \<in> set (closed st')"
      using c i pc by (force simp add: template_def)
    ultimately show "map_of (activeMCPConnections st') (connectionKey sid p) = None \<and>
                   c \<in> set (closed st')" ..
  qed
  have b: "\<forall>k. \<not> startsWith k (sid @ ''-'') \<longrightarrow>
                   map_of (activeMCPConnections st') k = map_of (activeMCPConnections st) k"
    using m connectionKey_startsWith_dash by auto
  have k: "\<forall>s p s' p'. CHR ''-'' \<notin> set s \<and> CHR ''-'' \<notin> set s' \<and>
                   connectionKey s p = connectionKey s' p' \<longrightarrow> s = s' \<and> p = p'"
    using connectionKey_inject by blast
  from e a b k show ?thesis by blast
qed

text \<open>Sessions \<open>s1\<close> and \<open>s2\<close>, both connected to \<open>fs\<close>; \<open>s1\<close> disconnects all.\<close>

lemma disconnect_all_dash_free_example:
  "''s1'' \<noteq> [] \<and> CHR ''-'' \<notin> set ''s1'' \<and> (\<forall>c. closeClient exampleWorld c = None) \<and>
   CHR ''-'' \<notin> set ''fs'' \<and>
   map_of [(''s1-fs'', 0::nat), (''s2-fs'', 1)] (connectionKey ''s1'' ''fs'') = Some 0 \<and>
   (\<exists>st' ds. disconnectEndpoint exampleWorld
       \<lparr>activeMCPConnections = [(''s1-fs'', 0), (''s2-fs'', 1)], spawned = [''fs'', ''fs''],
        closed = []\<rparr>
       \<lparr>disconnect_sessionId = ''s1'', disconnect_serverIds = None\<rparr> = (st', Json ds) \<and>
     map_of (activeMCPConnections st') (connectionKey ''s1'' ''fs'') = None \<and>
     0 \<in> set (closed st') \<and>
     map_of (activeMCPConnections st') ''s2-fs'' = Some 1)"
proof -
  let ?st = "\<lparr>activeMCPConnections = [(''s1-fs'', 0::nat), (''s2-fs'', 1)],
              spawned = [''fs'', ''fs''], closed = []\<rparr>"
  have h1: "''s1'' \<noteq> []" and h2: "CHR ''-'' \<notin> set ''s1''"
    and h3: "\<forall>c. closeClient exampleWorld c = None" and h4: "CHR ''-'' \<notin> set ''fs''"
    and h5: "map_of (activeMCPConnections ?st) (connectionKey ''s1'' ''fs'') = Some 0"
    and h6: "\<not> startsWith ''s2-fs'' (''s1'' @ ''-'')"
    and h7: "map_of (activeMCPConnections ?st) ''s2-fs'' = Some 1"
    by (simp_all add: exampleWorld_def connectionKey_def startsWith_def)
  from disconnect_all_dash_free [OF h1 h2 h3, of ?st] obtain st' ds where
    e: "disconnectEndpoint exampleWorld ?st
          \<lparr>disconnect_sessionId = ''s1'', disconnect_serverIds = None\<rparr> = (st', Json ds)"
    and a: "\<forall>p c. CHR ''-'' \<notin> set p \<and>
                   map_of (activeMCPConnections ?st) (connectionKey ''s1'' p) = Some c \<longrightarrow>
                   map_of (activeMCPConnections st') (connectionKey ''s1'' p) = None \<and>
                   c \<in> set (closed st')"
    and b: "\<forall>k. \<not> startsWith k (''s1'' @ ''-'') \<longrightarrow>
                   map_of (activeMCPConnections st') k = map_of (activeMCPConnections ?st) k"
    by blast
  from a h4 h5 have "map_of (activeMCPConnections st') (connectionKey ''s1'' ''fs'') = None"
    and "0 \<in> set (closed st')" by blast+
  moreover from b h6 h7 have "map_of (activeMCPConnections st') ''s2-fs'' = Some 1" by metis
  ultimately show ?thesis using h1 h2 h3 h4 h5 e by auto
qed

text \<open>The same request, evaluated.\<close>

lemma disconnect_all_example:
  "disconnectEndpoint exampleWorld
     \<lparr>activeMCPConnections = [(''s1-fs'', 0), (''s2-fs'', 1)], spawned = [''fs'', ''fs''],
      closed = []\<rparr>
     \<lparr>disconnect_sessionId = ''s1'', disconnect_serverIds = None\<rparr> =
     (\<lparr>activeMCPConnections = [(''s2-fs'', 1)], spawned = [''fs'', ''fs''], closed = [0]\<rparr>,
      Json [Some ''fs''])"
  by (simp add: disconnectEndpoint_def disconnectIds_def startsWith_def at_index_def
      template_def connectionKey_def exampleWorld_def)

text \<open>
  Disconnect-all takes the ids from the keys with \<open>k.split('-')[1]\<close>, the second part
  of the key, where \<open>extractServerId\<close> takes what follows the session id and \<open>-\<close>.
  For session \<open>s1\<close> connected to \<open>brave-search\<close> it looks up \<open>s1-brave\<close>, and for
  session \<open>user-123\<close> connected to \<open>filesystem\<close> it looks up \<open>user-123-123\<close>: nothing
  is found, nothing is closed, the registry is as before and the response lists no
  disconnected id.
\<close>

lemma disconnect_all_dashed_ids:
  "disconnectEndpoint exampleWorld
     \<lparr>activeMCPConnections = [(connectionKey ''s1'' ''brave-search'', 0)],
      spawned = [''brave-search''], closed = []\<rparr>
     \<lparr>disconnect_sessionId = ''s1'', disconnect_serverIds = None\<rparr> =
     (\<lparr>activeMCPConnections = [(connectionKey ''s1'' ''brave-search'', 0)],
       spawned = [''brave-search''], closed = []\<rparr>,
      Json []) \<and>
   disconnectEndpoint exampleWorld
     \<lparr>activeMCPConnections = [(connectionKey ''user-123'' ''filesystem'', 0)],
      spawned = [''filesystem''], closed = []\<rparr>
     \<lparr>disconnect_sessionId = ''user-123'', disconnect_serverIds = None\<rparr> =
     (\<lparr>activeMCPConnections = [(connectionKey ''user-123'' ''filesystem'', 0)],
       spawned = [''filesystem''], closed = []\<rparr>,
      Json [])"
  by (simp add: disconnectEndpoint_def disconnectIds_def startsWith_def at_index_def
      template_def connectionKey_def exampleWorld_def)

text \<open>
  The same connections are closed and removed when the request names the ids: the loop
  that closes and deletes handles ids with \<open>-\<close>.
\<close>

lemma disconnect_named_ids:
  "disconnectEndpoint exampleWorld
     \<lparr>activeMCPConnections = [(connectionKey ''s1'' ''brave-search'', 0)],
      spawned = [''brave-search''], closed = []\<rparr>
     \<lparr>disconnect_sessionId = ''s1'', disconnect_serverIds = Some [''brave-search'']\<rparr> =
     (\<lparr>activeMCPConnections = [], spawned = [''brave-search''], closed = [0]\<rparr>,
      Json [Some ''brave-search''])"
  by (simp add: disconnectEndpoint_def disconnectIds_def template_def connectionKey_def
      exampleWorld_def)

text \<open>
  Claim C6, as amended: the key of a connection is the session id, \<open>-\<close> and the provider
  id. Given the session id, the provider id is recovered from the key, also when it
  contains \<open>-\<close>; among session ids without \<open>-\<close> the key determines the session and the
  provider. When every \<open>close\<close> succeeds, the disconnect endpoint, called with or without
  provider ids, answers with a list of ids and leaves every entry whose key does not start
  with the session id and \<open>-\<close>; called with provider ids, it closes and removes the
  connection registered under the key of the session and each of these ids, also ids that
  contain \<open>-\<close>.
\<close>

theorem disconnect_by_key:
  assumes "sid \<noteq> []" and "\<forall>c. closeClient w c = None"
  shows "(\<exists>st' ds.
            disconnectEndpoint w st \<lparr>disconnect_sessionId = sid, disconnect_serverIds = sids\<rparr> =
              (st', Json ds) \<and>
            (\<forall>ids. sids = Some ids \<longrightarrow>
               (\<forall>p\<in>set ids. \<forall>c.
                  map_of (activeMCPConnections st) (connectionKey sid p) = Some c \<longrightarrow>
                  map_of (activeMCPConnections st') (connectionKey sid p) = None \<and>
                  c \<in> set (closed st'))) \<and>
            (\<forall>k. \<not> startsWith k (sid @ ''-'') \<longrightarrow>
               map_of (activeMCPConnections st') k = map_of (activeMCPConnections st) k)) \<and>
         (\<forall>p. extractServerId (connectionKey sid p) sid = Inr p) \<and>
         (\<forall>s p s' p'. CHR ''-'' \<notin> set s \<and> CHR ''-'' \<notin> set s' \<and>
            connectionKey s p = connectionKey s' p' \<longrightarrow> s = s' \<and> p = p')"
proof (intro conjI)
  let ?req = "\<lparr>disconnect_sessionId = sid, disconnect_serverIds = sids\<rparr>"
  let ?vs = "disconnectIds st ?req"
  from disconnectLoop_closes [OF assms(2), of st sid ?vs "[]"] obtain st' ds where
    r: "disconnectLoop w st sid ?vs [] = (st', Inr ds)"
    and m: "\<forall>k. map_of (activeMCPConnections st') k =
                  (if k \<in> (\<lambda>v. connectionKey sid (template v)) ` set ?vs then None
                   else map_of (activeMCPConnections st) k)"
    and c: "\<forall>v\<in>set ?vs. \<forall>c.
               map_of (activeMCPConnections st) (connectionKey sid (template v)) = Some c
                  \<longrightarrow> c \<in> set (closed st')"
    by blast
  have e: "disconnectEndpoint w st ?req = (st', Json ds)"
    using r assms(1) by (simp add: disconnectEndpoint_def)
  have a: "\<forall>ids. sids = Some ids \<longrightarrow>
               (\<forall>p\<in>set ids. \<forall>c.
                  map_of (activeMCPConnections st) (connectionKey sid p) = Some c \<longrightarrow>
                  map_of (activeMCPConnections st') (connectionKey sid p) = None \<and>
                  c \<in> set (closed st'))"
  proof (intro ballI allI impI)
    fix ids p c
    assume s: "sids = Some ids" and p: "p \<in> set ids"
      and pc: "map_of (activeMCPConnections st) (connectionKey sid p) = Some c"
    from s p have i: "Some p \<in> set ?vs"
      by (simp add: disconnectIds_def)
    then have "connectionKey sid p \<in> (\<lambda>v. connectionKey sid (template v)) ` set ?vs"
      by (force simp add: template_def)
    with m have "map_of (activeMCPConnections st') (connectionKey sid p) = None" by simp
    moreover have "c \<in> set (closed st')"
      using c i pc by (force simp add: template_def)
    ultimately show "map_of (activeMCPConnections st') (connectionKey sid p) = None \<and>
                   c \<in> set (closed st')" ..
  qed
  have b: "\<forall>k. \<not> startsWith k (sid @ ''-'') \<longrightarrow>
                   map_of (activeMCPConnections st') k = map_of (activeMCPConnections st) k"
    using m connectionKey_startsWith_dash by auto
  from e a b show "\<exists>st' ds.
            disconnectEndpoint w st ?req = (st', Json ds) \<and>
            (\<forall>ids. sids = Some ids \<longrightarrow>
               (\<forall>p\<in>set ids. \<forall>c.
                  map_of (activeMCPConnections st) (connectionKey sid p) = Some c \<longrightarrow>
                  map_of (activeMCPConnections st') (connectionKey sid p) = None \<and>
                  c \<in> set (closed st'))) \<and>
            (\<forall>k. \<not> startsWith k (sid @ ''-'') \<longrightarrow>
               map_of (activeMCPConnections st') k = map_of (activeMCPConnections st) k)"
    by blast
next
  show "\<forall>p. extractServerId (connectionKey sid p) sid = Inr p"
    by (simp add: extractServerId_connectionKey del: extractServerId.simps)
next
  show "\<forall>s p s' p'. CHR ''-'' \<notin> set s \<and> CHR ''-'' \<notin> set s' \<and>
            connectionKey s p = connectionKey s' p' \<longrightarrow> s = s' \<and> p = p'"
    using connectionKey_inject by blast
qed

text \<open>
  Session \<open>s1\<close> disconnects \<open>brave-search\<close> by name, next to session \<open>s2\<close> connected
  to \<open>fs\<close>.
\<close>

theorem disconnect_by_key_witness:
  "''s1'' \<noteq> [] \<and> (\<forall>c. closeClient exampleWorld c = None) \<and>
   map_of [(connectionKey ''s1'' ''brave-search'', 0::nat), (''s2-fs'', 1)]
     (connectionKey ''s1'' ''brave-search'') = Some 0 \<and>
   \<not> startsWith ''s2-fs'' (''s1'' @ ''-'') \<and>
   (\<exists>st' ds. disconnectEndpoint exampleWorld
       \<lparr>activeMCPConnections = [(connectionKey ''s1'' ''brave-search'', 0), (''s2-fs'', 1)],
        spawned = [''brave-search'', ''fs''], closed = []\<rparr>
       \<lparr>disconnect_sessionId = ''s1'', disconnect_serverIds = Some [''brave-search'']\<rparr> =
         (st', Json ds) \<and>
     map_of (activeMCPConnections st') (connectionKey ''s1'' ''brave-search'') = None \<and>
     0 \<in> set (closed st') \<and>
     map_of (activeMCPConnections st') ''s2-fs'' = Some 1) \<and>
   extractServerId (connectionKey ''s1'' ''brave-search'') ''s1'' = Inr ''brave-search'' \<and>
   CHR ''-'' \<notin> set ''s1'' \<and> CHR ''-'' \<notin> set ''s2'' \<and>
   connectionKey ''s1'' ''fs'' \<noteq> connectionKey ''s2'' ''fs''"
proof -
  let ?st = "\<lparr>activeMCPConnections = [(connectionKey ''s1'' ''brave-search'', 0::nat), (''s2-fs'', 1)],
              spawned = [''brave-search'', ''fs''], closed = []\<rparr>"
  have h1: "''s1'' \<noteq> []" and h2: "\<forall>c. closeClient exampleWorld c = None"
    and h3: "map_of (activeMCPConnections ?st) (connectionKey ''s1'' ''brave-search'') = Some 0"
    and h4: "\<not> startsWith ''s2-fs'' (''s1'' @ ''-'')"
    and h5: "map_of (activeMCPConnections ?st) ''s2-fs'' = Some 1"
    and h6: "CHR ''-'' \<notin> set ''s1''" "CHR ''-'' \<notin> set ''s2''"
    by (simp_all add: exampleWorld_def connectionKey_def startsWith_def)
  note t = disconnect_by_key [OF h1 h2, of ?st "Some [''brave-search'']"]
  from t obtain st' ds where
    e: "disconnectEndpoint exampleWorld ?st
          \<lparr>disconnect_sessionId = ''s1'', disconnect_serverIds = Some [''brave-search'']\<rparr> =
          (st', Json ds)"
    and a: "\<forall>ids. Some [''brave-search''] = Some ids \<longrightarrow>
              (\<forall>p\<in>set ids. \<forall>c.
               map_of (activeMCPConnections ?st) (connectionKey ''s1'' p) = Some c \<longrightarrow>
               map_of (activeMCPConnections st') (connectionKey ''s1'' p) = None \<and>
               c \<in> set (closed st'))"
    and b: "\<forall>k. \<not> startsWith k (''s1'' @ ''-'') \<longrightarrow>
                   map_of (activeMCPConnections st') k = map_of (activeMCPConnections ?st) k"
    by blast
  from a h3 have r1: "map_of (activeMCPConnections st') (connectionKey ''s1'' ''brave-search'') = None"
    and r2: "0 \<in> set (closed st')" by auto
  from b h4 h5 have r3: "map_of (activeMCPConnections st') ''s2-fs'' = Some 1" by metis
  from t have r4: "extractServerId (connectionKey ''s1'' ''brave-search'') ''s1'' = Inr ''brave-search''"
    by (elim conjE allE)
  have r5: "connectionKey ''s1'' ''fs'' \<noteq> connectionKey ''s2'' ''fs''"
  proof
    assume "connectionKey ''s1'' ''fs'' = connectionKey ''s2'' ''fs''"
    with t [THEN conjunct2, THEN conjunct2, rule_format, of "''s1''" "''s2''" "''fs''" "''fs''"] h6
    have "''s1'' = ''s2''" by blast
    then show False by simp
  qed
  from e r1 r2 r3 have "\<exists>st' ds. disconnectEndpoint exampleWorld ?st
          \<lparr>disconnect_sessionId = ''s1'', disconnect_serverIds = Some [''brave-search'']\<rparr> =
          (st', Json ds) \<and>
     map_of (activeMCPConnections st') (connectionKey ''s1'' ''brave-search'') = None \<and>
     0 \<in> set (closed st') \<and>
     map_of (activeMCPConnections st') ''s2-fs'' = Some 1"
    by blast
  with h1 h2 h3 h4 h6 r4 r5 show ?thesis
    unfolding server.simps by (intro conjI) assumption+
qed

text \<open>
  Claim C6 as stated fails: the key does not record where the session id ends, so two
  pairs have one key; and a connection whose \<open>close\<close> throws is not removed by
  disconnect-all, which answers with the status 500.
\<close>

theorem disconnect_by_key_counterexample:
  "connectionKey ''a-b'' ''c'' = connectionKey ''a'' ''b-c'' \<and> (''a-b'', ''c'') \<noteq> (''a'', ''b-c'') \<and>
   disconnectEndpoint (exampleWorld\<lparr>closeClient := (\<lambda>c. Some ''close failed'')\<rparr>)
     \<lparr>activeMCPConnections = [(connectionKey ''s1'' ''fs'', 0)], spawned = [''fs''], closed = []\<rparr>
     \<lparr>disconnect_sessionId = ''s1'', disconnect_serverIds = None\<rparr> =
     (\<lparr>activeMCPConnections = [(connectionKey ''s1'' ''fs'', 0)], spawned = [''fs''], closed = []\<rparr>,
      Status 500 ''Failed to disconnect'')"
  by (simp add: disconnectEndpoint_def disconnectIds_def startsWith_def at_index_def
      template_def connectionKey_def exampleWorld_def)

lemma toolsListLoop_registry:
  assumes "\<forall>c\<in>set conns. conn_session c \<noteq> sid \<longrightarrow>
             \<not> startsWith (connectionKey (conn_session c) (conn_provider c)) (sid @ ''-'')"
    and "\<forall>c\<in>set conns. conn_session c = sid \<longrightarrow> listTools w (conn_client c) = Inr (ts c)"
  shows "toolsListLoop w sid (registryOf conns) acc =
           Inr (acc @ concat (map (\<lambda>c. map (chatTool (conn_provider c)) (ts c))
                                (filter (\<lambda>c. conn_session c = sid) conns)))"
  using assms
proof (induction conns arbitrary: acc)
  case Nil
  show ?case by (simp add: registryOf_def)
next
  case (Cons c conns)
  have r: "registryOf (c # conns) =
      (connectionKey (conn_session c) (conn_provider c), conn_client c) # registryOf conns"
    by (simp add: registryOf_def)
  have sw: "startsWith (connectionKey (conn_session c) (conn_provider c)) (sid @ ''-'')
              \<longleftrightarrow> conn_session c = sid"
    using Cons.prems(1) connectionKey_startsWith_dash [of sid "conn_provider c"] by auto
  have ih: "\<And>acc. toolsListLoop w sid (registryOf conns) acc =
           Inr (acc @ concat (map (\<lambda>c. map (chatTool (conn_provider c)) (ts c))
                                (filter (\<lambda>c. conn_session c = sid) conns)))"
    using Cons.IH Cons.prems by simp
  show ?case
  proof (cases "conn_session c = sid")
    case True
    then have "listTools w (conn_client c) = Inr (ts c)" using Cons.prems(2) by simp
    with True sw show ?thesis
      unfolding r by (simp add: ih extractServerId_connectionKey del: extractServerId.simps)
  next
    case False
    with sw show ?thesis unfolding r by (simp add: ih del: extractServerId.simps)
  qed
qed

text \<open>Keys of sessions whose ids have no \<open>-\<close> start with \<open>sid-\<close> only for the session \<open>sid\<close>.\<close>

lemma dash_free_sessions:
  assumes "CHR ''-'' \<notin> set sid" and "\<forall>c\<in>set conns. CHR ''-'' \<notin> set (conn_session c)"
  shows "\<forall>c\<in>set conns. conn_session c \<noteq> sid \<longrightarrow>
           \<not> startsWith (connectionKey (conn_session c) (conn_provider c)) (sid @ ''-'')"
  using assms by (simp add: startsWith_connectionKey)

lemma startsWith_connectionKey_plain:
  assumes "CHR ''-'' \<notin> set sid"
  shows "startsWith (connectionKey s p) sid \<longleftrightarrow> startsWith s sid"
proof
  assume a: "startsWith (connectionKey s p) sid"
  show "startsWith s sid"
  proof (cases "length sid \<le> length s")
    case True
    with a show ?thesis by (simp add: startsWith_def connectionKey_def)
  next
    case False
    then have "take (length sid) (s @ CHR ''-'' # p) = s @ take (length sid - length s) (CHR ''-'' # p)"
      by simp
    moreover have "take (length sid - length s) (CHR ''-'' # p) = CHR ''-'' # take (length sid - length s - 1) p"
      using False by (cases "length sid - length s") simp_all
    ultimately have "CHR ''-'' \<in> set sid"
      using a by (simp add: startsWith_def connectionKey_def) (metis in_set_conv_decomp)
    with assms show ?thesis by simp
  qed
next
  assume "startsWith s sid"
  then show "startsWith (connectionKey s p) sid"
    by (auto simp add: startsWith_def connectionKey_def) (metis length_take min.absorb2 nat_le_linear take_all)
qed

lemma connectLoop_already:
  assumes "\<forall>serverId\<in>set serverIds.
             map_of (activeMCPConnections st) (connectionKey sessionId serverId) \<noteq> None"
  shows "connectLoop w st sessionId serverIds results =
           (st, results @ map (\<lambda>i. \<lparr>result_id = i, result_status = ''already connected'',
                                     result_error = None\<rparr>) serverIds)"
  using assms by (induction serverIds arbitrary: results) auto

text \<open>
  Claim C8: when the key of (session, provider) is in the registry, the iteration of the
  connect loop for that provider only appends \<open>already connected\<close> to the results; a
  request whose providers are all connected returns the state as it was, so no process
  is started and no entry changes. \<open>connectToServer\<close> of the agent backend returns at
  once, with the state as it was, when the id is in \<open>ACTIVE\<close>.
\<close>

theorem connect_idempotent:
  assumes "sessionId \<noteq> []"
    and "\<forall>serverId\<in>set serverIds.
           map_of (activeMCPConnections st) (connectionKey sessionId serverId) \<noteq> None"
  shows "connectEndpoint w st \<lparr>connect_sessionId = sessionId, connect_serverIds = Some serverIds\<rparr> =
           (st, Json (map (\<lambda>i. \<lparr>result_id = i, result_status = ''already connected'',
                                  result_error = None\<rparr>) serverIds)) \<and>
         (\<forall>serverId\<in>set serverIds. \<forall>more results.
            connectLoop w st sessionId (serverId # more) results =
              connectLoop w st sessionId more
                (results @ [\<lparr>result_id = serverId, result_status = ''already connected'',
                              result_error = None\<rparr>])) \<and>
         (\<forall>aw ast serverId. ACTIVE ast serverId \<noteq> None \<longrightarrow>
            connectToServer aw ast serverId = (ast, Inr ()))"
  using assms by (simp add: connectEndpoint_def connectLoop_already connectToServer_def)

text \<open>Session \<open>s1\<close> connects to \<open>fs\<close> a second time.\<close>

theorem connect_idempotent_witness:
  "''s1'' \<noteq> [] \<and>
   map_of [(''s1-fs'', 0::nat)] (connectionKey ''s1'' ''fs'') \<noteq> None \<and>
   connectEndpoint exampleWorld
     \<lparr>activeMCPConnections = [(''s1-fs'', 0)], spawned = [''fs''], closed = []\<rparr>
     \<lparr>connect_sessionId = ''s1'', connect_serverIds = Some [''fs'']\<rparr> =
     (\<lparr>activeMCPConnections = [(''s1-fs'', 0)], spawned = [''fs''], closed = []\<rparr>,
      Json [\<lparr>result_id = ''fs'', result_status = ''already connected'', result_error = None\<rparr>]) \<and>
   connectToServer \<lparr>BRAVE_API_KEY = None, agentTransportConnect = (\<lambda>n i. None),
                    fromClient = (\<lambda>c. None)\<rparr>
     \<lparr>ACTIVE = [''filesystem'' \<mapsto> \<lparr>active_client = 0, active_agent = 0\<rparr>],
      agentSpawned = [''filesystem'']\<rparr> ''filesystem'' =
     (\<lparr>ACTIVE = [''filesystem'' \<mapsto> \<lparr>active_client = 0, active_agent = 0\<rparr>],
       agentSpawned = [''filesystem'']\<rparr>, Inr ())"
  using connect_idempotent [of "''s1''" "[''fs'']"
      "\<lparr>activeMCPConnections = [(''s1-fs'', 0)], spawned = [''fs''], closed = []\<rparr>" exampleWorld]
  by (simp add: connectionKey_def)

text \<open>
  For comparison, on an empty registry: the first \<open>fs\<close> starts a process, the second is
  already connected, an unknown id fails and leaves no entry.
\<close>

lemma connect_fresh_spawns:
  "connectEndpoint exampleWorld
     \<lparr>activeMCPConnections = [], spawned = [], closed = []\<rparr>
     \<lparr>connect_sessionId = ''s1'', connect_serverIds = Some [''fs'', ''fs'', ''nope'']\<rparr> =
     (\<lparr>activeMCPConnections = [(''s1-fs'', 0)], spawned = [''fs''], closed = []\<rparr>,
      Json [\<lparr>result_id = ''fs'', result_status = ''connected'', result_error = None\<rparr>,
            \<lparr>result_id = ''fs'', result_status = ''already connected'', result_error = None\<rparr>,
            \<lparr>result_id = ''nope'', result_status = ''failed'',
             result_error = Some ''MCP server nope not found''\<rparr>])"
  by (simp add: connectEndpoint_def connectionKey_def connectToMCPServer_def
      fetchMCPServerDetails_def exampleWorld_def)

section \<open>Claim about the tool catalog\<close>

lemma toolsLoop_registry:
  assumes "CHR ''-'' \<notin> set sid"
    and "\<forall>c\<in>set conns. startsWith (conn_session c) sid \<longrightarrow> conn_session c = sid"
    and "\<forall>c\<in>set conns. conn_session c = sid \<longrightarrow> listTools w (conn_client c) = Inr (ts c)"
  shows "toolsLoop w sid (registryOf conns) acc =
           Inr (acc @ concat (map (\<lambda>c. map (listedTool (conn_provider c)) (ts c))
                                (filter (\<lambda>c. conn_session c = sid) conns)))"
  using assms(2,3)
proof (induction conns arbitrary: acc)
  case Nil
  show ?case by (simp add: registryOf_def)
next
  case (Cons c conns)
  have r: "registryOf (c # conns) =
      (connectionKey (conn_session c) (conn_provider c), conn_client c) # registryOf conns"
    by (simp add: registryOf_def)
  have sw: "startsWith (connectionKey (conn_session c) (conn_provider c)) sid
              \<longleftrightarrow> conn_session c = sid"
    using Cons.prems(1) startsWith_connectionKey_plain [OF assms(1)]
    by (auto simp add: startsWith_def)
  have ih: "\<And>acc. toolsLoop w sid (registryOf conns) acc =
           Inr (acc @ concat (map (\<lambda>c. map (listedTool (conn_provider c)) (ts c))
                                (filter (\<lambda>c. conn_session c = sid) conns)))"
    using Cons.IH Cons.prems by simp
  show ?case
  proof (cases "conn_session c = sid")
    case True
    then have "listTools w (conn_client c) = Inr (ts c)" using Cons.prems(2) by simp
    with True sw show ?thesis
      unfolding r by (simp add: ih extractServerId_connectionKey del: extractServerId.simps)
  next
    case False
    with sw show ?thesis unfolding r by (simp add: ih del: extractServerId.simps)
  qed
qed

text \<open>
  Claim C9, as amended: when no registered connection of another session has a key that
  starts with the session id and \<open>-\<close> (so whenever session ids contain no \<open>-\<close>, and
  also for a session id that is a proper prefix of another) and the providers of the
  session list their tools, the tools \<open>/api/chat\<close> offers to the model are the namespaced
  tools of the connections of that session, in the order of the registry, and nothing
  else.
\<close>

theorem catalog_of_session:
  assumes "\<forall>c\<in>set conns. conn_session c \<noteq> sid \<longrightarrow>
             \<not> startsWith (connectionKey (conn_session c) (conn_provider c)) (sid @ ''-'')"
    and "\<forall>c\<in>set conns. conn_session c = sid \<longrightarrow> listTools w (conn_client c) = Inr (ts c)"
  shows "toolsListLoop w sid (registryOf conns) [] =
           Inr (concat (map (\<lambda>c. map (chatTool (conn_provider c)) (ts c))
                          (filter (\<lambda>c. conn_session c = sid) conns)))"
  using toolsListLoop_registry [OF assms, of "[]"] by simp

text \<open>
  Session \<open>user-123\<close> connected to \<open>brave-search\<close>, next to sessions \<open>user-1234\<close> and
  \<open>user\<close>.
\<close>

theorem catalog_of_session_witness:
  "\<not> startsWith (connectionKey ''user-1234'' ''filesystem'') (''user-123'' @ ''-'') \<and>
   \<not> startsWith (connectionKey ''user'' ''filesystem'') (''user-123'' @ ''-'') \<and>
   listTools exampleWorld 0 =
     Inr [\<lparr>tool_name = ''read_file'', tool_description = Some ''Read a file'',
           tool_inputSchema = None\<rparr>] \<and>
   toolsListLoop exampleWorld ''user-123''
      (registryOf [\<lparr>conn_session = ''user-123'', conn_provider = ''brave-search'', conn_client = 0\<rparr>,
                   \<lparr>conn_session = ''user-1234'', conn_provider = ''filesystem'', conn_client = 1\<rparr>,
                   \<lparr>conn_session = ''user'', conn_provider = ''filesystem'', conn_client = 2\<rparr>]) [] =
     Inr [\<lparr>function_name = ''brave-search_read_file'', function_description = ''Read a file'',
           function_parameters = emptyParameters\<rparr>]"
proof -
  let ?conns = "[\<lparr>conn_session = ''user-123'', conn_provider = ''brave-search'', conn_client = 0\<rparr>,
                 \<lparr>conn_session = ''user-1234'', conn_provider = ''filesystem'', conn_client = 1\<rparr>,
                 \<lparr>conn_session = ''user'', conn_provider = ''filesystem'', conn_client = 2\<rparr>]"
  let ?ts = "\<lambda>c::connection. [\<lparr>tool_name = ''read_file'', tool_description = Some ''Read a file'',
                               tool_inputSchema = None\<rparr>]"
  have k: "\<not> startsWith (connectionKey ''user-1234'' ''filesystem'') (''user-123'' @ ''-'')"
    "\<not> startsWith (connectionKey ''user'' ''filesystem'') (''user-123'' @ ''-'')"
    by (simp_all add: connectionKey_def startsWith_def)
  have l: "\<And>c. listTools exampleWorld c =
      Inr [\<lparr>tool_name = ''read_file'', tool_description = Some ''Read a file'',
            tool_inputSchema = None\<rparr>]"
    by (simp add: exampleWorld_def)
  have h1: "\<forall>c\<in>set ?conns. conn_session c \<noteq> ''user-123'' \<longrightarrow>
      \<not> startsWith (connectionKey (conn_session c) (conn_provider c)) (''user-123'' @ ''-'')"
    using k by simp
  have h2: "\<forall>c\<in>set ?conns. conn_session c = ''user-123'' \<longrightarrow>
      listTools exampleWorld (conn_client c) = Inr (?ts c)"
    using l by simp
  from catalog_of_session [OF h1 h2]
  have "toolsListLoop exampleWorld ''user-123'' (registryOf ?conns) [] =
     Inr [\<lparr>function_name = ''brave-search_read_file'', function_description = ''Read a file'',
           function_parameters = emptyParameters\<rparr>]"
    by (simp add: chatTool_def encode_def)
  with k l show ?thesis by simp
qed

text \<open>
  Claim C9 as stated fails: the key of the connection of session \<open>s1-x\<close> to \<open>fs\<close>
  starts with \<open>s1-\<close>, so its tool is offered in the chat of session \<open>s1\<close>, as
  \<open>x-fs_read_file\<close>, although \<open>s1\<close> has no connection.
\<close>

theorem catalog_of_session_counterexample:
  "toolsListLoop exampleWorld ''s1''
      (registryOf [\<lparr>conn_session = ''s1-x'', conn_provider = ''fs'', conn_client = 0\<rparr>]) [] =
     Inr [\<lparr>function_name = ''x-fs_read_file'', function_description = ''Read a file'',
           function_parameters = emptyParameters\<rparr>] \<and>
   ''s1-x'' \<noteq> ''s1''"
  by (simp add: registryOf_def connectionKey_def startsWith_def exampleWorld_def chatTool_def
      encode_def)

text \<open>
  \<open>/api/mcp/tools\<close> filters with \<open>key.startsWith(sessionId)\<close>, without the \<open>-\<close> that
  the filter of \<open>/api/chat\<close> has: with sessions \<open>s1\<close> and \<open>s10\<close> registered it answers
  500 for \<open>s1\<close>, because \<open>extractServerId\<close> throws on the key \<open>s10-fs\<close>. Without such a
  key it lists the tools of the session.
\<close>

lemma tools_endpoint_longer_session:
  "toolsEndpoint exampleWorld
      \<lparr>activeMCPConnections =
         registryOf [\<lparr>conn_session = ''s1'', conn_provider = ''fs'', conn_client = 0\<rparr>,
                     \<lparr>conn_session = ''s10'', conn_provider = ''fs'', conn_client = 1\<rparr>],
       spawned = [''fs'', ''fs''], closed = []\<rparr> ''s1'' =
     Status 500 ''Failed to list tools''"
  by (simp add: registryOf_def connectionKey_def startsWith_def exampleWorld_def
      toolsEndpoint_def listedTool_def)

section \<open>Claims about the turn loop\<close>

lemma callResult_no_function: "call_function call = None \<Longrightarrow> callResult w reg sid call = []"
  by (simp add: callResult_def)

lemma callResult_function:
  assumes "call_function call = Some f" and "parseArgs w (fn_arguments f) = Inr args"
  shows "callResult w reg sid call =
           [\<lparr>role = ''tool'',
             content = stringify w (invokeTool w reg sid (fn_name f) args),
             tool_calls = None, tool_call_id = Some (call_id call)\<rparr>]"
  using assms by (simp add: callResult_def toolMsg_def)

lemma dispatchCalls_parsed:
  assumes "\<forall>call\<in>set calls. argsParse w call"
  shows "dispatchCalls w reg sid calls cv results =
           Inr (cv @ concat (map (callResult w reg sid) calls),
                results @ concat (map (callResult w reg sid) calls))"
  using assms
proof (induction calls arbitrary: cv results)
  case Nil
  show ?case by simp
next
  case (Cons call calls)
  then have ih: "\<And>cv results. dispatchCalls w reg sid calls cv results =
           Inr (cv @ concat (map (callResult w reg sid) calls),
                results @ concat (map (callResult w reg sid) calls))"
    by simp
  show ?case
  proof (cases "call_function call")
    case None
    then show ?thesis by (simp add: ih callResult_no_function)
  next
    case (Some f)
    with Cons.prems obtain args where "parseArgs w (fn_arguments f) = Inr args"
      by (auto simp add: argsParse_def split: sum.splits)
    with Some show ?thesis by (simp add: ih callResult_function toolMsg_def Let_def)
  qed
qed

lemma callResult_ids:
  assumes "\<forall>call\<in>set calls. argsParse w call"
  shows "map tool_call_id (concat (map (callResult w reg sid) calls)) =
           map (\<lambda>c. Some (call_id c)) (filter (\<lambda>c. call_function c \<noteq> None) calls)"
  using assms
proof (induction calls)
  case Nil
  show ?case by simp
next
  case (Cons call calls)
  show ?case
  proof (cases "call_function call")
    case None
    with Cons show ?thesis by (simp add: callResult_no_function)
  next
    case (Some f)
    with Cons.prems obtain args where "parseArgs w (fn_arguments f) = Inr args"
      by (auto simp add: argsParse_def split: sum.splits)
    with Some Cons show ?thesis by (simp add: callResult_function)
  qed
qed

lemma callResult_role: "m \<in> set (callResult w reg sid call) \<Longrightarrow> role m = ''tool''"
  by (auto simp add: callResult_def toolMsg_def split: option.splits sum.splits)

lemma invokeTool_not_connected:
  assumes "map_of reg (connectionKey sid (fst (decode fullName))) = None"
  shows "invokeTool w reg sid fullName args =
           ErrorObject (''MCP server '' @ fst (decode fullName) @ '' not connected'')"
  using assms by (cases "decode fullName") (simp add: invokeTool_def)

lemma invokeTool_throws:
  assumes "map_of reg (connectionKey sid (fst (decode fullName))) = Some client"
    and "callTool w client (snd (decode fullName)) args = Inl m"
  shows "invokeTool w reg sid fullName args = ErrorObject m"
  using assms by (cases "decode fullName") (simp add: invokeTool_def)

lemma invokeTool_success:
  assumes "map_of reg (connectionKey sid (fst (decode fullName))) = Some client"
    and "callTool w client (snd (decode fullName)) args = Inr c"
  shows "invokeTool w reg sid fullName args = Content c"
  using assms by (cases "decode fullName") (simp add: invokeTool_def)

lemma chatLoop_tool_turn:
  assumes "int turn < maxTurns"
    and "pruneConversation (convo st) = Inr pruned"
    and "complete w turn pruned toolsList = Inr a"
    and "assistant_tool_calls a = Some calls" and "calls \<noteq> []"
    and "\<forall>call\<in>set calls. argsParse w call"
  shows "chatLoop w reg sid toolsList st turn maxTurns =
           chatLoop w reg sid toolsList
             \<lparr>convo = pruned @ [planningMsg calls] @ concat (map (callResult w reg sid) calls),
              allToolCalls = allToolCalls st @ calls,
              allToolResults = allToolResults st @ concat (map (callResult w reg sid) calls)\<rparr>
             (Suc turn) maxTurns"
proof -
  obtain c cs where cs: "calls = c # cs" using assms(5) by (cases calls) auto
  have "dispatchCalls w reg sid (c # cs) (pruned @ [planningMsg (c # cs)]) (allToolResults st) =
      Inr ((pruned @ [planningMsg (c # cs)]) @ concat (map (callResult w reg sid) (c # cs)),
           allToolResults st @ concat (map (callResult w reg sid) (c # cs)))"
    using assms(6) unfolding cs by (rule dispatchCalls_parsed)
  then show ?thesis
    using assms(1-4) unfolding cs
    by (subst chatLoop.simps) simp
qed

lemma chatLoop_out_of_turns:
  assumes "\<not> int turn < maxTurns"
  shows "chatLoop w reg sid toolsList st turn maxTurns =
           Inr \<lparr>result_message = None, result_toolCalls = allToolCalls st,
                result_toolResults = allToolResults st\<rparr>"
  using assms by (subst chatLoop.simps) simp

lemma chatLoop_final:
  assumes "int turn < maxTurns"
    and "pruneConversation (convo st) = Inr pruned"
    and "complete w turn pruned toolsList = Inr a"
    and "assistant_tool_calls a = None \<or> assistant_tool_calls a = Some []"
  shows "chatLoop w reg sid toolsList st turn maxTurns =
           Inr \<lparr>result_message = Some a, result_toolCalls = allToolCalls st,
                result_toolResults = allToolResults st\<rparr>"
  using assms by (subst chatLoop.simps) auto

lemma callsOf_nonempty:
  assumes "callsOf a \<noteq> []"
  shows "assistant_tool_calls a = Some (callsOf a)"
  using assms by (cases "assistant_tool_calls a") (simp_all add: callsOf_def)

lemma chatLoop_toolTurns:
  assumes "length answers = nat (maxTurns - int turn)"
    and "toolTurns w reg sid toolsList st turn answers"
  shows "chatLoop w reg sid toolsList st turn maxTurns =
           Inr \<lparr>result_message = None,
                result_toolCalls = allToolCalls st @ concat (map callsOf answers),
                result_toolResults = allToolResults st @
                  concat (map (callResult w reg sid) (concat (map callsOf answers)))\<rparr>"
  using assms
proof (induction answers arbitrary: st turn)
  case Nil
  then have "\<not> int turn < maxTurns" by simp
  then show ?case by (simp add: chatLoop_out_of_turns)
next
  case (Cons a answers)
  from Cons.prems(1) have lt: "int turn < maxTurns" by simp
  from Cons.prems(2) obtain pruned where
    p: "pruneConversation (convo st) = Inr pruned"
    by (cases "pruneConversation (convo st)") simp_all
  let ?calls = "callsOf a"
  let ?R = "concat (map (callResult w reg sid) ?calls)"
  let ?st' = "\<lparr>convo = pruned @ [planningMsg ?calls] @ ?R,
              allToolCalls = allToolCalls st @ ?calls,
              allToolResults = allToolResults st @ ?R\<rparr>"
  from Cons.prems(2) p have
    c: "complete w turn pruned toolsList = Inr a" and ne: "?calls \<noteq> []"
    and ap: "list_all (argsParse w) ?calls"
    and rest: "toolTurns w reg sid toolsList ?st' (Suc turn) answers"
    by simp_all
  have tc: "assistant_tool_calls a = Some ?calls" using ne by (rule callsOf_nonempty)
  have ap': "\<forall>call\<in>set ?calls. argsParse w call" using ap by (simp add: list_all_iff)
  have step: "chatLoop w reg sid toolsList st turn maxTurns =
      chatLoop w reg sid toolsList ?st' (Suc turn) maxTurns"
    using lt p c tc ne ap' by (rule chatLoop_tool_turn)
  have n: "length answers = nat (maxTurns - int (Suc turn))" using Cons.prems(1) by simp
  show ?case
    unfolding step Cons.IH [OF n rest] by simp
qed

lemma planning_toolsList:
  "toolsListLoop planningWorld ''s1'' (activeMCPConnections fsServer) [] =
     Inr [\<lparr>function_name = ''fs_read_file'', function_description = ''Read a file'',
           function_parameters = emptyParameters\<rparr>]"
  by (simp add: planningWorld_def exampleWorld_def fsServer_def startsWith_def chatTool_def
      encode_def)

lemma planning_callResult:
  "callResult planningWorld (activeMCPConnections fsServer) ''s1'' read_file_call = [read_file_result]"
  by (simp add: callResult_def read_file_call_def parseArgs_def planningWorld_def exampleWorld_def
      toolMsg_def invokeTool_def decode_def connectionKey_def fsServer_def stringify_def
      read_file_result_def)

lemma prune_hello: "pruneConversation [hello] = Inr [hello]"
  by (simp add: pruneConversation_def hello_def clipMessage_def totalTokens_def msgTokens_def
      strTokens_def BYTES_PER_TOKEN_def MAX_SINGLE_MSG_TOKENS_def MAX_CONTEXT_TOKENS_def)

lemma prune_hello_planning:
  "pruneConversation [hello, planningMsg calls] = Inr [hello, planningMsg calls]"
  by (simp add: pruneConversation_def hello_def planningMsg_def clipMessage_def totalTokens_def
      msgTokens_def strTokens_def BYTES_PER_TOKEN_def MAX_SINGLE_MSG_TOKENS_def
      MAX_CONTEXT_TOKENS_def)

lemma argsParse_bare: "argsParse w bare_call"
  by (simp add: argsParse_def bare_call_def)

lemma argsParse_empty_object:
  "JSON_parse w ''{}'' = Some j \<Longrightarrow>
   argsParse w \<lparr>call_id = i, call_function = Some \<lparr>fn_name = n, fn_arguments = RawString ''{}''\<rparr>\<rparr>"
  by (simp add: argsParse_def parseArgs_def)

lemma faulty_results:
  "callResult faultyWorld (activeMCPConnections fsServer) ''s1'' boom_call =
     [\<lparr>role = ''tool'', content = CStr (stringifyError faultyWorld ''tool failed''),
       tool_calls = None, tool_call_id = Some ''call_4''\<rparr>]"
  "callResult faultyWorld (activeMCPConnections fsServer) ''s1'' unknown_call =
     [\<lparr>role = ''tool'',
       content = CStr (stringifyError faultyWorld ''MCP server unknown not connected''),
       tool_calls = None, tool_call_id = Some ''call_3''\<rparr>]"
  "callResult faultyWorld (activeMCPConnections fsServer) ''s1'' read_file_call =
     [\<lparr>role = ''tool'', content = CStr ''[]'', tool_calls = None,
       tool_call_id = Some ''call_1''\<rparr>]"
  by (simp_all add: callResult_def boom_call_def unknown_call_def read_file_call_def parseArgs_def
      faultyWorld_def exampleWorld_def toolMsg_def invokeTool_def decode_def connectionKey_def
      fsServer_def stringify_def)

text \<open>
  Claim C2, as amended: in a turn in which the model requests calls and the arguments of
  every call that has a function parse, the next turn starts from the pruned conversation,
  the assistant message recording the calls, and then one tool message for every call that
  has a \<open>function\<close> field, in the order of the calls and with the id of its call; a
  call without the field gets no tool message.
\<close>

theorem one_result_per_call:
  assumes "int turn < maxTurns"
    and "pruneConversation (convo st) = Inr pruned"
    and "complete w turn pruned toolsList = Inr a"
    and "assistant_tool_calls a = Some calls" and "calls \<noteq> []"
    and "\<forall>call\<in>set calls. argsParse w call"
  shows "\<exists>results.
           chatLoop w reg sid toolsList st turn maxTurns =
             chatLoop w reg sid toolsList
               \<lparr>convo = pruned @ [planningMsg calls] @ results,
                allToolCalls = allToolCalls st @ calls,
                allToolResults = allToolResults st @ results\<rparr>
               (Suc turn) maxTurns \<and>
           map tool_call_id results =
             map (\<lambda>c. Some (call_id c)) (filter (\<lambda>c. call_function c \<noteq> None) calls) \<and>
           (\<forall>m\<in>set results. role m = ''tool'')"
proof -
  let ?R = "concat (map (callResult w reg sid) calls)"
  have "chatLoop w reg sid toolsList st turn maxTurns =
             chatLoop w reg sid toolsList
               \<lparr>convo = pruned @ [planningMsg calls] @ ?R,
                allToolCalls = allToolCalls st @ calls,
                allToolResults = allToolResults st @ ?R\<rparr>
               (Suc turn) maxTurns"
    using assms by (rule chatLoop_tool_turn)
  moreover have "map tool_call_id ?R =
      map (\<lambda>c. Some (call_id c)) (filter (\<lambda>c. call_function c \<noteq> None) calls)"
    using assms(6) by (rule callResult_ids)
  moreover have "\<forall>m\<in>set ?R. role m = ''tool''"
    by (auto dest: callResult_role)
  ultimately show ?thesis by blast
qed

text \<open>A turn with a call of \<open>read_file\<close> and a call without function: one result.\<close>

theorem one_result_per_call_witness:
  "int 0 < 2 \<and> pruneConversation [hello] = Inr [hello] \<and>
   complete mixedWorld 0 [hello] [] =
     Inr \<lparr>assistant_content = None, assistant_tool_calls = Some [read_file_call, bare_call]\<rparr> \<and>
   [read_file_call, bare_call] \<noteq> [] \<and>
   argsParse mixedWorld read_file_call \<and> argsParse mixedWorld bare_call \<and>
   (\<exists>results.
      chatLoop mixedWorld (activeMCPConnections fsServer) ''s1'' []
        \<lparr>convo = [hello], allToolCalls = [], allToolResults = []\<rparr> 0 2 =
      chatLoop mixedWorld (activeMCPConnections fsServer) ''s1'' []
        \<lparr>convo = [hello] @ [planningMsg [read_file_call, bare_call]] @ results,
         allToolCalls = [read_file_call, bare_call],
         allToolResults = results\<rparr> 1 2 \<and>
      map tool_call_id results = [Some ''call_1''] \<and>
      list_all (\<lambda>m. role m = ''tool'') results)"
proof -
  have h1: "int 0 < 2" by simp
  have h3: "complete mixedWorld 0 [hello] [] =
     Inr \<lparr>assistant_content = None, assistant_tool_calls = Some [read_file_call, bare_call]\<rparr>"
    by (simp add: mixedWorld_def)
  have h4: "assistant_tool_calls
      \<lparr>assistant_content = None, assistant_tool_calls = Some [read_file_call, bare_call]\<rparr> =
      Some [read_file_call, bare_call]" by simp
  have h5: "[read_file_call, bare_call] \<noteq> []" by simp
  have a1: "argsParse mixedWorld read_file_call"
    unfolding read_file_call_def
    by (rule argsParse_empty_object [of _ "''{}''"]) (simp add: mixedWorld_def exampleWorld_def)
  have h6: "\<forall>call\<in>set [read_file_call, bare_call]. argsParse mixedWorld call"
    using a1 argsParse_bare by simp
  have p: "pruneConversation (convo \<lparr>convo = [hello], allToolCalls = [], allToolResults = []\<rparr>) =
      Inr [hello]" by (simp add: prune_hello)
  from one_result_per_call [OF h1 p h3 h4 h5 h6, of "activeMCPConnections fsServer" "''s1''"]
  obtain results where
    r: "chatLoop mixedWorld (activeMCPConnections fsServer) ''s1'' []
        \<lparr>convo = [hello], allToolCalls = [], allToolResults = []\<rparr> 0 2 =
      chatLoop mixedWorld (activeMCPConnections fsServer) ''s1'' []
        \<lparr>convo = [hello] @ [planningMsg [read_file_call, bare_call]] @ results,
         allToolCalls = [] @ [read_file_call, bare_call],
         allToolResults = [] @ results\<rparr> (Suc 0) 2"
    and i: "map tool_call_id results =
      map (\<lambda>c. Some (call_id c))
        (filter (\<lambda>c. call_function c \<noteq> None) [read_file_call, bare_call])"
    and t: "\<forall>m\<in>set results. role m = ''tool''"
    by auto
  from i have "map tool_call_id results = [Some ''call_1'']"
    by (simp add: read_file_call_def bare_call_def)
  moreover from t have "list_all (\<lambda>m. role m = ''tool'') results"
    by (simp add: list_all_iff)
  ultimately show ?thesis
    using r h3 a1 argsParse_bare prune_hello by auto
qed

text \<open>
  Claim C2 as stated fails: for a call without \<open>function\<close> the dispatch loop appends
  nothing, the model is asked again with the call unanswered in the conversation (it
  reports that it saw no tool message), and the response lists the call and no result.
\<close>

theorem one_result_per_call_counterexample:
  "dispatchCalls bareWorld (activeMCPConnections fsServer) ''s1'' [bare_call]
      [hello, planningMsg [bare_call]] [] =
     Inr ([hello, planningMsg [bare_call]], []) \<and>
   chatEndpoint bareWorld fsServer
     \<lparr>chat_sessionId = ''s1'', chat_messages = Some [hello], chat_useMCP = None,
      chat_maxTurns = Some 2\<rparr> =
     Json \<lparr>result_message =
             Some \<lparr>assistant_content = Some ''no tool result seen'', assistant_tool_calls = None\<rparr>,
           result_toolCalls = [bare_call], result_toolResults = []\<rparr>"
proof -
  have d: "dispatchCalls bareWorld (activeMCPConnections fsServer) ''s1'' [bare_call]
      [hello, planningMsg [bare_call]] [] = Inr ([hello, planningMsg [bare_call]], [])"
    by (simp add: bare_call_def)
  have tl: "toolsListLoop bareWorld ''s1'' (activeMCPConnections fsServer) [] =
     Inr [\<lparr>function_name = ''fs_read_file'', function_description = ''Read a file'',
           function_parameters = emptyParameters\<rparr>]"
    by (simp add: bareWorld_def exampleWorld_def fsServer_def startsWith_def chatTool_def
        encode_def)
  let ?tools = "[\<lparr>function_name = ''fs_read_file'', function_description = ''Read a file'',
           function_parameters = emptyParameters\<rparr>]"
  have c0: "complete bareWorld 0 [hello] ?tools =
      Inr \<lparr>assistant_content = None, assistant_tool_calls = Some [bare_call]\<rparr>"
    by (simp add: bareWorld_def)
  have c1: "complete bareWorld (Suc 0) [hello, planningMsg [bare_call]] ?tools =
      Inr \<lparr>assistant_content = Some ''no tool result seen'', assistant_tool_calls = None\<rparr>"
    by (simp add: bareWorld_def hello_def planningMsg_def)
  have ap: "\<forall>call\<in>set [bare_call]. argsParse bareWorld call"
    by (simp add: argsParse_bare)
  have "chatLoop bareWorld (activeMCPConnections fsServer) ''s1'' ?tools
      \<lparr>convo = [hello], allToolCalls = [], allToolResults = []\<rparr> 0 2 =
    chatLoop bareWorld (activeMCPConnections fsServer) ''s1'' ?tools
      \<lparr>convo = [hello, planningMsg [bare_call]], allToolCalls = [bare_call],
       allToolResults = []\<rparr> (Suc 0) 2"
    using chatLoop_tool_turn [of 0 2 "\<lparr>convo = [hello], allToolCalls = [], allToolResults = []\<rparr>"
        "[hello]" bareWorld ?tools _ "[bare_call]", OF _ _ c0 _ _ ap]
    by (simp add: prune_hello callResult_no_function bare_call_def)
  also have "\<dots> = Inr \<lparr>result_message =
             Some \<lparr>assistant_content = Some ''no tool result seen'', assistant_tool_calls = None\<rparr>,
           result_toolCalls = [bare_call], result_toolResults = []\<rparr>"
    using chatLoop_final [of "Suc 0" 2
        "\<lparr>convo = [hello, planningMsg [bare_call]], allToolCalls = [bare_call],
          allToolResults = []\<rparr>" "[hello, planningMsg [bare_call]]" bareWorld ?tools, OF _ _ c1]
    by (simp add: prune_hello_planning)
  finally show ?thesis
    using d by (simp add: chatEndpoint_def tl)
qed

text \<open>
  Among session ids without \<open>-\<close> the registry has no entry under the key of a session
  and a provider exactly when the session has no connection to that provider.
\<close>

lemma registry_key_absent:
  assumes "CHR ''-'' \<notin> set sid" and "\<forall>c\<in>set conns. CHR ''-'' \<notin> set (conn_session c)"
  shows "map_of (registryOf conns) (connectionKey sid p) = None \<longleftrightarrow>
           (\<forall>c\<in>set conns. \<not> (conn_session c = sid \<and> conn_provider c = p))"
proof -
  have "map_of (registryOf conns) (connectionKey sid p) = None \<longleftrightarrow>
          connectionKey sid p \<notin> (\<lambda>c. connectionKey (conn_session c) (conn_provider c)) ` set conns"
    by (simp add: map_of_eq_None_iff registryOf_def image_image)
  also have "\<dots> \<longleftrightarrow> (\<forall>c\<in>set conns. \<not> (conn_session c = sid \<and> conn_provider c = p))"
    using assms connectionKey_inject [of sid _ p] by (auto simp add: image_iff)
  finally show ?thesis .
qed

text \<open>
  Claim C7, as amended: when the arguments of every call of the turn that has a function
  parse, the dispatch loop raises nothing and appends, for each such call, its own tool
  message, whatever its siblings do: with the \<open>not connected\<close> error when the registry
  has no entry under the key made of the session id, \<open>-\<close> and the provider id the name
  resolves to, with the message of the exception when the client under that key throws,
  with the content otherwise; and the loop goes on to the next turn.
\<close>

theorem tool_failures_contained:
  assumes "\<forall>call\<in>set calls. argsParse w call"
  shows "dispatchCalls w reg sid calls cv results =
           Inr (cv @ concat (map (callResult w reg sid) calls),
                results @ concat (map (callResult w reg sid) calls)) \<and>
         (\<forall>call\<in>set calls. \<forall>f args.
            call_function call = Some f \<and> parseArgs w (fn_arguments f) = Inr args \<longrightarrow>
            callResult w reg sid call =
              [\<lparr>role = ''tool'',
                content = stringify w (invokeTool w reg sid (fn_name f) args),
                tool_calls = None, tool_call_id = Some (call_id call)\<rparr>] \<and>
            (map_of reg (connectionKey sid (fst (decode (fn_name f)))) = None \<longrightarrow>
               invokeTool w reg sid (fn_name f) args =
                 ErrorObject (''MCP server '' @ fst (decode (fn_name f)) @ '' not connected'')) \<and>
            (\<forall>client m.
               map_of reg (connectionKey sid (fst (decode (fn_name f)))) = Some client \<and>
               callTool w client (snd (decode (fn_name f))) args = Inl m \<longrightarrow>
               invokeTool w reg sid (fn_name f) args = ErrorObject m) \<and>
            (\<forall>client c.
               map_of reg (connectionKey sid (fst (decode (fn_name f)))) = Some client \<and>
               callTool w client (snd (decode (fn_name f))) args = Inr c \<longrightarrow>
               invokeTool w reg sid (fn_name f) args = Content c)) \<and>
         (\<forall>st turn maxTurns toolsList pruned a.
            int turn < maxTurns \<and> pruneConversation (convo st) = Inr pruned \<and>
            complete w turn pruned toolsList = Inr a \<and>
            assistant_tool_calls a = Some calls \<and> calls \<noteq> [] \<longrightarrow>
            chatLoop w reg sid toolsList st turn maxTurns =
              chatLoop w reg sid toolsList
                \<lparr>convo = pruned @ [planningMsg calls] @ concat (map (callResult w reg sid) calls),
                 allToolCalls = allToolCalls st @ calls,
                 allToolResults = allToolResults st @ concat (map (callResult w reg sid) calls)\<rparr>
                (Suc turn) maxTurns)"
proof (intro conjI)
  show "dispatchCalls w reg sid calls cv results =
           Inr (cv @ concat (map (callResult w reg sid) calls),
                results @ concat (map (callResult w reg sid) calls))"
    using assms by (rule dispatchCalls_parsed)
next
  show "\<forall>call\<in>set calls. \<forall>f args.
            call_function call = Some f \<and> parseArgs w (fn_arguments f) = Inr args \<longrightarrow>
            callResult w reg sid call =
              [\<lparr>role = ''tool'',
                content = stringify w (invokeTool w reg sid (fn_name f) args),
                tool_calls = None, tool_call_id = Some (call_id call)\<rparr>] \<and>
            (map_of reg (connectionKey sid (fst (decode (fn_name f)))) = None \<longrightarrow>
               invokeTool w reg sid (fn_name f) args =
                 ErrorObject (''MCP server '' @ fst (decode (fn_name f)) @ '' not connected'')) \<and>
            (\<forall>client m.
               map_of reg (connectionKey sid (fst (decode (fn_name f)))) = Some client \<and>
               callTool w client (snd (decode (fn_name f))) args = Inl m \<longrightarrow>
               invokeTool w reg sid (fn_name f) args = ErrorObject m) \<and>
            (\<forall>client c.
               map_of reg (connectionKey sid (fst (decode (fn_name f)))) = Some client \<and>
               callTool w client (snd (decode (fn_name f))) args = Inr c \<longrightarrow>
               invokeTool w reg sid (fn_name f) args = Content c)"
    by (intro ballI allI impI conjI)
       (auto simp add: callResult_function invokeTool_not_connected invokeTool_throws
          invokeTool_success)
next
  show "\<forall>st turn maxTurns toolsList pruned a.
            int turn < maxTurns \<and> pruneConversation (convo st) = Inr pruned \<and>
            complete w turn pruned toolsList = Inr a \<and>
            assistant_tool_calls a = Some calls \<and> calls \<noteq> [] \<longrightarrow>
            chatLoop w reg sid toolsList st turn maxTurns =
              chatLoop w reg sid toolsList
                \<lparr>convo = pruned @ [planningMsg calls] @ concat (map (callResult w reg sid) calls),
                 allToolCalls = allToolCalls st @ calls,
                 allToolResults = allToolResults st @ concat (map (callResult w reg sid) calls)\<rparr>
                (Suc turn) maxTurns"
    using chatLoop_tool_turn assms by blast
qed

text \<open>
  A tool that throws, a provider whose key is not in the registry and a call that
  succeeds, in one turn: two error results and the content.
\<close>

theorem tool_failures_contained_witness:
  "argsParse faultyWorld boom_call \<and> argsParse faultyWorld unknown_call \<and>
   argsParse faultyWorld read_file_call \<and>
   dispatchCalls faultyWorld (activeMCPConnections fsServer) ''s1''
       [boom_call, unknown_call, read_file_call] [hello] [] =
     Inr ([hello,
           \<lparr>role = ''tool'', content = CStr (stringifyError faultyWorld ''tool failed''),
            tool_calls = None, tool_call_id = Some ''call_4''\<rparr>,
           \<lparr>role = ''tool'',
            content = CStr (stringifyError faultyWorld ''MCP server unknown not connected''),
            tool_calls = None, tool_call_id = Some ''call_3''\<rparr>,
           \<lparr>role = ''tool'', content = CStr ''[]'', tool_calls = None,
            tool_call_id = Some ''call_1''\<rparr>],
          [\<lparr>role = ''tool'', content = CStr (stringifyError faultyWorld ''tool failed''),
            tool_calls = None, tool_call_id = Some ''call_4''\<rparr>,
           \<lparr>role = ''tool'',
            content = CStr (stringifyError faultyWorld ''MCP server unknown not connected''),
            tool_calls = None, tool_call_id = Some ''call_3''\<rparr>,
           \<lparr>role = ''tool'', content = CStr ''[]'', tool_calls = None,
            tool_call_id = Some ''call_1''\<rparr>])"
proof -
  have p: "JSON_parse faultyWorld ''{}'' = Some ''{}''"
    by (simp add: faultyWorld_def exampleWorld_def)
  have a: "argsParse faultyWorld boom_call" "argsParse faultyWorld unknown_call"
    "argsParse faultyWorld read_file_call"
    unfolding boom_call_def unknown_call_def read_file_call_def
    by (rule argsParse_empty_object [OF p])+
  then have h: "\<forall>call\<in>set [boom_call, unknown_call, read_file_call]. argsParse faultyWorld call"
    by simp
  from tool_failures_contained [OF h, of "activeMCPConnections fsServer" "''s1''" "[hello]" "[]"]
  have "dispatchCalls faultyWorld (activeMCPConnections fsServer) ''s1''
       [boom_call, unknown_call, read_file_call] [hello] [] =
     Inr ([hello] @ concat (map (callResult faultyWorld (activeMCPConnections fsServer) ''s1'')
                              [boom_call, unknown_call, read_file_call]),
          [] @ concat (map (callResult faultyWorld (activeMCPConnections fsServer) ''s1'')
                              [boom_call, unknown_call, read_file_call]))"
    by (rule conjunct1)
  then show ?thesis using a by (simp add: faulty_results)
qed

text \<open>
  Claim C7 as stated fails: next to a call of a provider that is not connected, a call
  without \<open>function\<close> is not executed and gets no result; a call of a provider that is
  not connected whose arguments are no JSON raises the SyntaxError instead of getting an
  error result, and its sibling is not executed; and session \<open>user\<close>, which has no
  connection, calling \<open>123-filesystem_read_file\<close> gets the content the client of session
  \<open>user-123\<close> returns, not an error result: the key \<open>user-123-filesystem\<close> it looks up
  is the key of that session's connection to \<open>filesystem\<close>.
\<close>

theorem tool_failures_contained_counterexample:
  "dispatchCalls exampleWorld (activeMCPConnections fsServer) ''s1''
       [unknown_call, bare_call] [hello] [] =
     Inr ([hello,
           \<lparr>role = ''tool'',
            content = CStr (stringifyError exampleWorld ''MCP server unknown not connected''),
            tool_calls = None, tool_call_id = Some ''call_3''\<rparr>],
          [\<lparr>role = ''tool'',
            content = CStr (stringifyError exampleWorld ''MCP server unknown not connected''),
            tool_calls = None, tool_call_id = Some ''call_3''\<rparr>]) \<and>
   dispatchCalls exampleWorld (activeMCPConnections fsServer) ''s1''
       [malformed_call, read_file_call] [hello] [] =
     Inl (SyntaxError ''Unexpected token in JSON'') \<and>
   dispatchCalls exampleWorld [(connectionKey ''user-123'' ''filesystem'', 0)] ''user''
       [foreign_call] [hello] [] =
     Inr ([hello,
           \<lparr>role = ''tool'', content = CStr ''[]'', tool_calls = None,
            tool_call_id = Some ''call_6''\<rparr>],
          [\<lparr>role = ''tool'', content = CStr ''[]'', tool_calls = None,
            tool_call_id = Some ''call_6''\<rparr>])"
  by (simp add: unknown_call_def bare_call_def malformed_call_def read_file_call_def
      foreign_call_def parseArgs_def exampleWorld_def toolMsg_def invokeTool_def decode_def
      connectionKey_def fsServer_def stringify_def Let_def)

text \<open>
  Claim C5, as amended: when every one of the \<open>maxTurns\<close> turns of the run is a tool turn
  (the model requests calls on each, and nothing is raised: the tool list is built, pruning
  succeeds, arguments parse), the response is the body with \<open>message: null\<close>, the calls
  of all the answers in order and, in the same order, the tool message of every call that
  has a function. The assistant content of a turn that requests calls is not kept.
\<close>

theorem turn_limit_exhausted:
  assumes "chat_sessionId req \<noteq> []" and "chat_messages req = Some messages"
    and "(if (case chat_useMCP req of None \<Rightarrow> True | Some b \<Rightarrow> b)
          then toolsListLoop w (chat_sessionId req) (activeMCPConnections srv) []
          else Inr []) = Inr toolsList"
    and "maxTurns = (case chat_maxTurns req of None \<Rightarrow> 6 | Some n \<Rightarrow> n)"
    and "length answers = nat maxTurns"
    and "toolTurns w (activeMCPConnections srv) (chat_sessionId req) toolsList
           \<lparr>convo = messages, allToolCalls = [], allToolResults = []\<rparr> 0 answers"
  shows "chatEndpoint w srv req =
           Json \<lparr>result_message = None,
                 result_toolCalls = concat (map callsOf answers),
                 result_toolResults =
                   concat (map (callResult w (activeMCPConnections srv) (chat_sessionId req))
                             (concat (map callsOf answers)))\<rparr>"
proof -
  have n: "length answers = nat (maxTurns - int 0)" using assms(5) by simp
  have "chatLoop w (activeMCPConnections srv) (chat_sessionId req) toolsList
          \<lparr>convo = messages, allToolCalls = [], allToolResults = []\<rparr> 0 maxTurns =
        Inr \<lparr>result_message = None,
             result_toolCalls = concat (map callsOf answers),
             result_toolResults =
               concat (map (callResult w (activeMCPConnections srv) (chat_sessionId req))
                         (concat (map callsOf answers)))\<rparr>"
    using chatLoop_toolTurns [OF n assms(6)] by simp
  then show ?thesis
    using assms(1-3) unfolding assms(4) by (simp add: chatEndpoint_def Let_def)
qed

lemma dependent_toolsList:
  "toolsListLoop dependentWorld ''s1'' (activeMCPConnections fsServer) [] =
     Inr [\<lparr>function_name = ''fs_read_file'', function_description = ''Read a file'',
           function_parameters = emptyParameters\<rparr>]"
  by (simp add: dependentWorld_def exampleWorld_def fsServer_def startsWith_def chatTool_def
      encode_def)

lemma dependent_callResult:
  "callResult dependentWorld (activeMCPConnections fsServer) ''s1'' read_file_call =
     [read_file_result]"
  "callResult dependentWorld (activeMCPConnections fsServer) ''s1'' unknown_call =
     [unknown_result]"
  by (simp_all add: callResult_def read_file_call_def unknown_call_def parseArgs_def
      dependentWorld_def exampleWorld_def toolMsg_def invokeTool_def decode_def
      connectionKey_def fsServer_def stringify_def read_file_result_def unknown_result_def)

lemma dependent_argsParse:
  "argsParse dependentWorld read_file_call" "argsParse dependentWorld unknown_call"
  by (simp_all add: argsParse_def read_file_call_def unknown_call_def parseArgs_def
      dependentWorld_def exampleWorld_def)

lemma prune_after_read:
  "pruneConversation [hello, planningMsg calls, read_file_result] =
     Inr [hello, planningMsg calls, read_file_result]"
  by (simp add: pruneConversation_def hello_def planningMsg_def read_file_result_def
      clipMessage_def totalTokens_def msgTokens_def strTokens_def BYTES_PER_TOKEN_def
      MAX_SINGLE_MSG_TOKENS_def MAX_CONTEXT_TOKENS_def)

lemma dependent_answers:
  "complete dependentWorld 0 [hello] tools =
     Inr \<lparr>assistant_content = Some ''Let me read the file.'',
          assistant_tool_calls = Some [read_file_call]\<rparr>"
  "complete dependentWorld (Suc 0) [hello, planningMsg calls, read_file_result] tools =
     Inr \<lparr>assistant_content = Some ''One more.'', assistant_tool_calls = Some [unknown_call]\<rparr>"
  by (simp_all add: dependentWorld_def hello_def planningMsg_def read_file_result_def)

lemma dependent_toolTurns:
  "toolTurns dependentWorld (activeMCPConnections fsServer) ''s1'' tools
     \<lparr>convo = [hello], allToolCalls = [], allToolResults = []\<rparr> 0
     [\<lparr>assistant_content = Some ''Let me read the file.'',
       assistant_tool_calls = Some [read_file_call]\<rparr>,
      \<lparr>assistant_content = Some ''One more.'', assistant_tool_calls = Some [unknown_call]\<rparr>]"
  by (simp add: prune_hello prune_after_read dependent_answers callsOf_def dependent_argsParse
      dependent_callResult)

text \<open>
  Two turns of a model that asks for \<open>read_file\<close> until it is shown a tool message and
  for a tool of an unknown server afterwards.
\<close>

theorem turn_limit_exhausted_witness:
  "''s1'' \<noteq> [] \<and>
   toolsListLoop dependentWorld ''s1'' (activeMCPConnections fsServer) [] =
     Inr [\<lparr>function_name = ''fs_read_file'', function_description = ''Read a file'',
           function_parameters = emptyParameters\<rparr>] \<and>
   length [\<lparr>assistant_content = Some ''Let me read the file.'',
            assistant_tool_calls = Some [read_file_call]\<rparr>,
           \<lparr>assistant_content = Some ''One more.'',
            assistant_tool_calls = Some [unknown_call]\<rparr>] = nat 2 \<and>
   toolTurns dependentWorld (activeMCPConnections fsServer) ''s1''
     [\<lparr>function_name = ''fs_read_file'', function_description = ''Read a file'',
       function_parameters = emptyParameters\<rparr>]
     \<lparr>convo = [hello], allToolCalls = [], allToolResults = []\<rparr> 0
     [\<lparr>assistant_content = Some ''Let me read the file.'',
       assistant_tool_calls = Some [read_file_call]\<rparr>,
      \<lparr>assistant_content = Some ''One more.'', assistant_tool_calls = Some [unknown_call]\<rparr>] \<and>
   chatEndpoint dependentWorld fsServer
     \<lparr>chat_sessionId = ''s1'', chat_messages = Some [hello], chat_useMCP = None,
      chat_maxTurns = Some 2\<rparr> =
     Json \<lparr>result_message = None,
           result_toolCalls = [read_file_call, unknown_call],
           result_toolResults = [read_file_result, unknown_result]\<rparr>"
proof -
  let ?req = "\<lparr>chat_sessionId = ''s1'', chat_messages = Some [hello], chat_useMCP = None,
      chat_maxTurns = Some 2\<rparr>"
  let ?tools = "[\<lparr>function_name = ''fs_read_file'', function_description = ''Read a file'',
       function_parameters = emptyParameters\<rparr>]"
  let ?answers = "[\<lparr>assistant_content = Some ''Let me read the file.'',
       assistant_tool_calls = Some [read_file_call]\<rparr>,
      \<lparr>assistant_content = Some ''One more.'', assistant_tool_calls = Some [unknown_call]\<rparr>]"
  have h1: "chat_sessionId ?req \<noteq> []" by simp
  have h2: "chat_messages ?req = Some [hello]" by simp
  have h3: "(if (case chat_useMCP ?req of None \<Rightarrow> True | Some b \<Rightarrow> b)
          then toolsListLoop dependentWorld (chat_sessionId ?req) (activeMCPConnections fsServer) []
          else Inr []) = Inr ?tools"
    by (simp add: dependent_toolsList)
  have h4: "(2::int) = (case chat_maxTurns ?req of None \<Rightarrow> 6 | Some n \<Rightarrow> n)" by simp
  have h5: "length ?answers = nat 2" by simp
  have h6: "toolTurns dependentWorld (activeMCPConnections fsServer) (chat_sessionId ?req) ?tools
           \<lparr>convo = [hello], allToolCalls = [], allToolResults = []\<rparr> 0 ?answers"
    using dependent_toolTurns by simp
  have "chatEndpoint dependentWorld fsServer ?req =
     Json \<lparr>result_message = None,
           result_toolCalls = [read_file_call, unknown_call],
           result_toolResults = [read_file_result, unknown_result]\<rparr>"
    using turn_limit_exhausted [OF h1 h2 h3 h4 h5 h6]
    by (simp add: callsOf_def dependent_callResult)
  then show ?thesis
    using dependent_toolsList dependent_toolTurns by simp
qed

text \<open>
  Claim C5 as stated fails: the model's answer of the only turn has content and a call;
  the response has the call and its result, and \<open>message\<close> is \<open>null\<close>.
\<close>

theorem turn_limit_exhausted_counterexample:
  "complete planningWorld 0 [hello]
      [\<lparr>function_name = ''fs_read_file'', function_description = ''Read a file'',
        function_parameters = emptyParameters\<rparr>] =
     Inr \<lparr>assistant_content = Some ''Let me read the file.'',
          assistant_tool_calls = Some [read_file_call]\<rparr> \<and>
   chatEndpoint planningWorld fsServer
     \<lparr>chat_sessionId = ''s1'', chat_messages = Some [hello], chat_useMCP = None,
      chat_maxTurns = Some 1\<rparr> =
     Json \<lparr>result_message = None, result_toolCalls = [read_file_call],
           result_toolResults = [read_file_result]\<rparr>"
proof -
  have p: "pruneConversation [hello] = Inr [hello]"
    by (simp add: pruneConversation_def hello_def clipMessage_def totalTokens_def msgTokens_def
        strTokens_def BYTES_PER_TOKEN_def MAX_SINGLE_MSG_TOKENS_def MAX_CONTEXT_TOKENS_def)
  have c: "\<And>t cv tools. complete planningWorld t cv tools =
      Inr \<lparr>assistant_content = Some ''Let me read the file.'',
           assistant_tool_calls = Some [read_file_call]\<rparr>"
    by (simp add: planningWorld_def)
  have ap: "\<forall>call\<in>set [read_file_call]. argsParse planningWorld call"
    by (simp add: argsParse_def read_file_call_def parseArgs_def planningWorld_def exampleWorld_def)
  have "chatLoop planningWorld (activeMCPConnections fsServer) ''s1''
      [\<lparr>function_name = ''fs_read_file'', function_description = ''Read a file'',
        function_parameters = emptyParameters\<rparr>]
      \<lparr>convo = [hello], allToolCalls = [], allToolResults = []\<rparr> 0 1 =
     Inr \<lparr>result_message = None, result_toolCalls = [read_file_call],
          result_toolResults = [read_file_result]\<rparr>"
    using chatLoop_tool_turn [of 0 1 "\<lparr>convo = [hello], allToolCalls = [], allToolResults = []\<rparr>"
        "[hello]" planningWorld _ _ "[read_file_call]", OF _ _ c _ _ ap]
    by (simp add: p chatLoop_out_of_turns planning_callResult)
  then show ?thesis
    by (simp add: chatEndpoint_def planning_toolsList c)
qed


end
